theory Spec2Isabelle
  imports Complex_Main "HOL-Library.Multiset" "HOL-Library.Char_ord" "HOL-Library.List_Lexorder"
begin

section \<open>JavaScript values used by the tracking engine\<close>

text \<open>
  A property read from a parsed JSON object is absent (\<open>undefined\<close>), \<open>null\<close> or a
  value.  The operators \<open>??\<close> and \<open>?.\<close> treat \<open>undefined\<close> and \<open>null\<close> alike; a template
  string does not.
\<close>

datatype 'a nullable = Undefined | Null | Val 'a

text \<open>
  Numbers.  Coordinates, angles and distances are real numbers; identifiers, counters
  and clock readings are integers.  Rounding, \<open>NaN\<close> and overflow of the doubles of the
  runtime are outside this model.
\<close>

text \<open>\<open>a ?? d\<close>\<close>

fun orElse :: "'a nullable \<Rightarrow> 'a \<Rightarrow> 'a" where
  "orElse (Val a) d = a"
| "orElse Undefined d = d"
| "orElse Null d = d"

text \<open>\<open>a?.f\<close>: \<open>undefined\<close> when \<open>a\<close> is nullish, the property otherwise.\<close>

fun chain :: "'a nullable \<Rightarrow> ('a \<Rightarrow> 'b nullable) \<Rightarrow> 'b nullable" where
  "chain (Val a) f = f a"
| "chain Undefined f = Undefined"
| "chain Null f = Undefined"

text \<open>
  Identifiers and counters of the feed are whole numbers.  The text that a template
  string gives for a number is the runtime's: the decimal digits for a whole number of
  magnitude below \<open>10^21\<close>, an exponent form from there on.  The functions below that
  build such a text take the conversion as their parameter \<open>numberText\<close>, so what is
  proved of them holds for every conversion.  \<open>numberToString\<close> is the decimal text; it
  stands for the conversion in the worked examples, whose numbers are small, and
  \<open>natToString\<close> gives the text of an HTTP status.
\<close>

fun natToString :: "nat \<Rightarrow> string" where
  "natToString n =
     (if n < 10 then [char_of (48 + n)]
      else natToString (n div 10) @ [char_of (48 + n mod 10)])"

declare natToString.simps [simp del]

definition numberToString :: "int \<Rightarrow> string" where
  "numberToString i = (if i < 0 then CHR ''-'' # natToString (nat (- i)) else natToString (nat i))"

text \<open>
  \<open>`${x}`\<close> for a numeric property that may be missing: the text of the number, or
  \<open>undefined\<close> or \<open>null\<close> spelled out.
\<close>

fun template :: "(int \<Rightarrow> string) \<Rightarrow> int nullable \<Rightarrow> string" where
  "template numberText (Val i) = numberText i"
| "template numberText Undefined = ''undefined''"
| "template numberText Null = ''null''"

text \<open>\<open>toUpperCase\<close> and \<open>toLowerCase\<close> on the ASCII letters of a string.\<close>

definition upperChar :: "char \<Rightarrow> char" where
  "upperChar c =
     (let n = (of_char c :: nat) in if 97 \<le> n \<and> n \<le> 122 then char_of (n - 32) else c)"

definition lowerChar :: "char \<Rightarrow> char" where
  "lowerChar c =
     (let n = (of_char c :: nat) in if 65 \<le> n \<and> n \<le> 90 then char_of (n + 32) else c)"

definition toUpperCase :: "string \<Rightarrow> string" where
  "toUpperCase s = map upperChar s"

definition toLowerCase :: "string \<Rightarrow> string" where
  "toLowerCase s = map lowerChar s"

section \<open>Position normalizer (utils/normalize.ts)\<close>

datatype VehicleType = TRAM | BUS | TROLLEY | UNKNOWN

fun typeName :: "VehicleType \<Rightarrow> string" where
  "typeName TRAM = ''TRAM''"
| "typeName BUS = ''BUS''"
| "typeName TROLLEY = ''TROLLEY''"
| "typeName UNKNOWN = ''UNKNOWN''"

text \<open>
  The fields of a raw feed record that the normalizer reads; each may be missing.  The
  elements of a raw list are objects, as the type \<open>RawVehicle[]\<close> declares.
\<close>

record TimeTableLine =
  ezVehicleType :: "string nullable"
  ezLineType :: "string nullable"
  r_line :: "string nullable"
  r_lineName :: "string nullable"

record TimeTableTrip =
  timeTableLine :: "TimeTableLine nullable"
  r_destination :: "string nullable"
  destinationStopName :: "string nullable"
  r_lowFloor :: "bool nullable"
  ezTripDirection :: "string nullable"
  r_operatorName :: "string nullable"
  r_tripID :: "int nullable"

record RawVehicle =
  r_vehicleID :: "int nullable"
  r_latitude :: "real nullable"
  r_longitude :: "real nullable"
  r_delayMinutes :: "int nullable"
  timeTableTrip :: "TimeTableTrip nullable"
  r_lastCommunication :: "string nullable"
  r_lastStopOrder :: "int nullable"
  r_isOnStop :: "bool nullable"
  r_tooltip :: "string nullable"

text \<open>The canonical vehicle record.  \<open>v_id\<close> is the field \<open>id\<close> of the source.\<close>

record Vehicle =
  v_id :: string
  vehicleID :: "int nullable"
  latitude :: real
  longitude :: real
  prevLatitude :: "real option"
  prevLongitude :: "real option"
  line :: string
  lineName :: string
  vehicleType :: VehicleType
  vehicleTypeClass :: string
  destination :: string
  destinationStop :: string
  delayMinutes :: int
  lowFloor :: bool
  tooltip :: "string option"
  tripDirection :: string
  operatorName :: string
  lastCommunication :: string
  lastStopOrder :: int
  isOnStop :: bool
  lastSeen :: int
  tripID :: int

type_synonym VehicleMap = "string \<rightharpoonup> Vehicle"

definition resolveVehicleType :: "RawVehicle \<Rightarrow> VehicleType" where
  "resolveVehicleType raw =
     (let vt = chain (chain (chain (timeTableTrip raw) timeTableLine) ezVehicleType)
                 (\<lambda>s. Val (toUpperCase s))
      in if vt = Val ''TRAM'' then TRAM
         else if vt = Val ''BUS'' then BUS
         else if vt = Val ''TROLLEY'' then TROLLEY
         else
           (let lt = chain (chain (chain (timeTableTrip raw) timeTableLine) ezLineType)
                       (\<lambda>s. Val (toLowerCase s))
            in if lt = Val ''tram'' then TRAM
               else if lt = Val ''bus'' then BUS
               else if lt = Val ''trolley'' then TROLLEY
               else UNKNOWN))"

definition makeId :: "(int \<Rightarrow> string) \<Rightarrow> RawVehicle \<Rightarrow> string" where
  "makeId numberText raw =
     template numberText (r_vehicleID raw) @ ''-'' @ template numberText (r_lastStopOrder raw)"

text \<open>
  \<open>normalizeVehicle numberText now raw existingMap\<close>: \<open>now\<close> is what \<open>Date.now()\<close> returns
  in this call; \<open>existingMap\<close> is the optional second argument.
\<close>

definition normalizeVehicle ::
  "(int \<Rightarrow> string) \<Rightarrow> int \<Rightarrow> RawVehicle \<Rightarrow> VehicleMap option \<Rightarrow> Vehicle" where
  "normalizeVehicle numberText now raw existingMap =
     (let ident = makeId numberText raw;
          existing = (case existingMap of None \<Rightarrow> None | Some m \<Rightarrow> m ident);
          vType = resolveVehicleType raw;
          trip = timeTableTrip raw;
          tline = chain trip timeTableLine
      in \<lparr> v_id = ident,
           vehicleID = r_vehicleID raw,
           latitude = orElse (r_latitude raw) 0,
           longitude = orElse (r_longitude raw) 0,
           prevLatitude = map_option latitude existing,
           prevLongitude = map_option longitude existing,
           line = orElse (chain tline r_line) ''?'',
           lineName = orElse (chain tline r_lineName) '''',
           vehicleType = vType,
           vehicleTypeClass = toLowerCase (typeName vType),
           destination = orElse (chain trip r_destination) '''',
           destinationStop = orElse (chain trip destinationStopName) '''',
           delayMinutes = orElse (r_delayMinutes raw) 0,
           lowFloor = orElse (chain trip r_lowFloor) False,
           tooltip = (case r_tooltip raw of Val t \<Rightarrow> Some t | _ \<Rightarrow> None),
           tripDirection = orElse (chain trip ezTripDirection) '''',
           operatorName = orElse (chain trip r_operatorName) '''',
           lastCommunication = orElse (r_lastCommunication raw) '''',
           lastStopOrder = orElse (r_lastStopOrder raw) 0,
           isOnStop = orElse (r_isOnStop raw) False,
           lastSeen = now,
           tripID = orElse (chain trip r_tripID) 0 \<rparr>)"

text \<open>
  The loop of \<open>normalizeVehicles\<close>.  Every iteration reads the clock once: \<open>clock k\<close> is
  the reading of the \<open>k\<close>-th call of \<open>Date.now()\<close>.
\<close>

type_synonym clock = "nat \<Rightarrow> int"

fun normalizeLoop ::
  "(int \<Rightarrow> string) \<Rightarrow> clock \<Rightarrow> nat \<Rightarrow> RawVehicle list \<Rightarrow> VehicleMap option \<Rightarrow> VehicleMap \<Rightarrow>
   VehicleMap" where
  "normalizeLoop numberText clk k [] existingMap m = m"
| "normalizeLoop numberText clk k (raw # rawList) existingMap m =
     (let v = normalizeVehicle numberText (clk k) raw existingMap
      in normalizeLoop numberText clk (Suc k) rawList existingMap (m(v_id v \<mapsto> v)))"

definition normalizeVehicles ::
  "(int \<Rightarrow> string) \<Rightarrow> clock \<Rightarrow> RawVehicle list \<Rightarrow> VehicleMap option \<Rightarrow> VehicleMap" where
  "normalizeVehicles numberText clk rawList existingMap =
     normalizeLoop numberText clk 0 rawList existingMap Map.empty"

subsection \<open>The normalizer on objects\<close>

text \<open>
  To follow what a call reads and what it writes, the raw list and the maps are objects
  in a store: an array object and \<open>Map\<close> objects, each under an address.  Addresses are
  handed out in order, so every object of the store lies below \<open>nextAddress\<close>.
\<close>

record Store =
  mapObjects :: "nat \<rightharpoonup> VehicleMap"
  arrayObjects :: "nat \<rightharpoonup> RawVehicle list"
  nextAddress :: nat

text \<open>\<open>new Map()\<close>: the address of the new, empty map and the store with it.\<close>

definition newMap :: "Store \<Rightarrow> nat \<times> Store" where
  "newMap st =
     (nextAddress st,
      st\<lparr> mapObjects := (mapObjects st)(nextAddress st \<mapsto> Map.empty),
          nextAddress := Suc (nextAddress st) \<rparr>)"

text \<open>\<open>map.set(key, v)\<close> on the map at an address.\<close>

definition mapSet :: "nat \<Rightarrow> string \<Rightarrow> Vehicle \<Rightarrow> Store \<Rightarrow> Store" where
  "mapSet a k v st =
     (case mapObjects st a of
        None \<Rightarrow> st
      | Some m \<Rightarrow> st\<lparr> mapObjects := (mapObjects st)(a \<mapsto> m(k \<mapsto> v)) \<rparr>)"

text \<open>
  The map that the optional argument \<open>existingMap\<close> refers to, as it is in the store when
  \<open>normalizeVehicle\<close> reads it.
\<close>

definition deref :: "Store \<Rightarrow> nat option \<Rightarrow> VehicleMap option" where
  "deref st existingRef = (case existingRef of None \<Rightarrow> None | Some a \<Rightarrow> mapObjects st a)"

text \<open>
  The loop \<open>for (const raw of rawList)\<close> from index \<open>i\<close>: each pass reads the array object,
  builds the record from the element and the map that \<open>existingMap\<close> refers to, and sets
  it in the map at \<open>mapRef\<close>.
\<close>

function normalizeLoopAt ::
  "(int \<Rightarrow> string) \<Rightarrow> clock \<Rightarrow> nat \<Rightarrow> nat \<Rightarrow> nat option \<Rightarrow> nat \<Rightarrow> Store \<Rightarrow> Store" where
  "normalizeLoopAt numberText clk i rawRef existingRef mapRef st =
     (case arrayObjects st rawRef of
        None \<Rightarrow> st
      | Some rawList \<Rightarrow>
          if i < length rawList then
            normalizeLoopAt numberText clk (Suc i) rawRef existingRef mapRef
              (mapSet mapRef
                 (v_id (normalizeVehicle numberText (clk i) (rawList ! i) (deref st existingRef)))
                 (normalizeVehicle numberText (clk i) (rawList ! i) (deref st existingRef)) st)
          else st)"
  by pat_completeness auto
termination
proof (relation "measure (\<lambda>(numberText, clk, i, rawRef, existingRef, mapRef, st).
          (case arrayObjects st rawRef of None \<Rightarrow> 0 | Some rawList \<Rightarrow> length rawList) - i)")
  show "wf (measure (\<lambda>(numberText, clk, i, rawRef, existingRef, mapRef, st).
          (case arrayObjects st rawRef of None \<Rightarrow> 0 | Some rawList \<Rightarrow> length rawList) - i))"
    by simp
next
  fix numberText :: "int \<Rightarrow> string" and clk :: clock and i rawRef :: nat
    and existingRef :: "nat option" and mapRef :: nat and st :: Store and rawList
  assume arr: "arrayObjects st rawRef = Some rawList" and lt: "i < length rawList"
  have "arrayObjects (mapSet mapRef k v st) = arrayObjects st" for k v
    by (simp add: mapSet_def split: option.split)
  with arr lt
  show "((numberText, clk, Suc i, rawRef, existingRef, mapRef,
          mapSet mapRef
            (v_id (normalizeVehicle numberText (clk i) (rawList ! i) (deref st existingRef)))
            (normalizeVehicle numberText (clk i) (rawList ! i) (deref st existingRef)) st),
         (numberText, clk, i, rawRef, existingRef, mapRef, st))
        \<in> measure (\<lambda>(numberText, clk, i, rawRef, existingRef, mapRef, st).
             (case arrayObjects st rawRef of None \<Rightarrow> 0 | Some rawList \<Rightarrow> length rawList) - i)"
    by simp
qed

declare normalizeLoopAt.simps [simp del]

text \<open>
  \<open>normalizeVehicles\<close> on the array at \<open>rawRef\<close> and the optional map at \<open>existingRef\<close>:
  the address of the map it returns, and the store after the call.
\<close>

definition normalizeVehiclesAt ::
  "(int \<Rightarrow> string) \<Rightarrow> clock \<Rightarrow> nat \<Rightarrow> nat option \<Rightarrow> Store \<Rightarrow> nat \<times> Store" where
  "normalizeVehiclesAt numberText clk rawRef existingRef st =
     (fst (newMap st),
      normalizeLoopAt numberText clk 0 rawRef existingRef (fst (newMap st)) (snd (newMap st)))"

text \<open>A record of the feed used in the worked examples below.\<close>

definition rawSample :: RawVehicle where
  "rawSample =
     \<lparr> r_vehicleID = Val 7, r_latitude = Val (4815 / 100), r_longitude = Val (1711 / 100),
       r_delayMinutes = Undefined, timeTableTrip = Undefined, r_lastCommunication = Undefined,
       r_lastStopOrder = Val 3, r_isOnStop = Undefined, r_tooltip = Undefined \<rparr>"

section \<open>Poll scheduler (hooks/useVehicles)\<close>

text \<open>What a \<open>catch\<close> clause receives: an \<open>Error\<close> with its message, or some other value.\<close>

datatype Thrown = Error string | NonError

text \<open>\<open>err instanceof Error ? err.message : 'Unknown error'\<close>\<close>

fun errorMessage :: "Thrown \<Rightarrow> string" where
  "errorMessage (Error msg) = msg"
| "errorMessage NonError = ''Unknown error''"

text \<open>
  The parsed body of a feed response: an object whose \<open>vehicles\<close> is an array, a bare
  array, or any other shape.
\<close>

datatype ApiData = Wrapped "RawVehicle list" | Bare "RawVehicle list" | OtherShape

datatype ResponseBody = BodyRejects Thrown | BodyJson ApiData

text \<open>
  The outcome of one \<open>fetch\<close>: the promise rejects (network error), or a response arrives
  with its HTTP status and a body that \<open>res.json()\<close> parses or fails to parse.
\<close>

datatype FetchOutcome = FetchRejects Thrown | Response nat ResponseBody

text \<open>\<open>res.ok\<close>\<close>

definition statusOk :: "nat \<Rightarrow> bool" where
  "statusOk status = (200 \<le> status \<and> status \<le> 299)"

record PollState =
  vehicles :: VehicleMap
  lastFetch :: "int option"
  error :: "string option"
  loading :: bool
  reloading :: bool
  backoffRef :: nat
  vehiclesRef :: VehicleMap

definition initialPollState :: PollState where
  "initialPollState =
     \<lparr> vehicles = Map.empty, lastFetch = None, error = None, loading = True,
       reloading = False, backoffRef = 1, vehiclesRef = Map.empty \<rparr>"

text \<open>The \<open>try\<close> block of \<open>fetchVehicles\<close> up to the raw list: what it throws, or the list.\<close>

fun fetchRawList :: "FetchOutcome \<Rightarrow> Thrown + RawVehicle list" where
  "fetchRawList (FetchRejects t) = Inl t"
| "fetchRawList (Response status body) =
     (if \<not> statusOk status then Inl (Error (''HTTP '' @ natToString status))
      else case body of
        BodyRejects t \<Rightarrow> Inl t
      | BodyJson (Wrapped rawList) \<Rightarrow> Inr rawList
      | BodyJson (Bare rawList) \<Rightarrow> Inr rawList
      | BodyJson OtherShape \<Rightarrow> Inr [])"

text \<open>
  \<open>fetchVehicles numberText clk manual outcome st\<close>: one call, from the state \<open>st\<close>, whose request
  ends as \<open>outcome\<close>.  The clock is read once per normalized record and once more for
  \<open>lastFetch\<close>.
\<close>

definition fetchVehicles ::
  "(int \<Rightarrow> string) \<Rightarrow> clock \<Rightarrow> bool \<Rightarrow> FetchOutcome \<Rightarrow> PollState \<Rightarrow> PollState" where
  "fetchVehicles numberText clk manual outcome st =
     (let st1 = (if manual then st\<lparr>reloading := True\<rparr> else st);
          st2 =
            (case fetchRawList outcome of
               Inr rawList \<Rightarrow>
                 (let newMap = normalizeVehicles numberText clk rawList (Some (vehiclesRef st1))
                  in st1\<lparr> vehiclesRef := newMap, vehicles := newMap,
                          lastFetch := Some (clk (length rawList)), error := None,
                          loading := False, backoffRef := 1 \<rparr>)
             | Inl err \<Rightarrow>
                 st1\<lparr> error := Some (errorMessage err), loading := False,
                       backoffRef := min (backoffRef st1 * 2) 12 \<rparr>)
      in if manual then st2\<lparr>reloading := False\<rparr> else st2)"

text \<open>A fetch fails when its \<open>try\<close> block throws.\<close>

definition fetchFails :: "FetchOutcome \<Rightarrow> bool" where
  "fetchFails outcome = (case fetchRawList outcome of Inl err \<Rightarrow> True | Inr rawList \<Rightarrow> False)"

text \<open>
  \<open>schedule\<close>: the delay in milliseconds that the timer is armed with, from the poll
  interval in seconds and the backoff multiplier at that moment.
\<close>

definition schedule :: "nat \<Rightarrow> PollState \<Rightarrow> nat" where
  "schedule pollInterval st = pollInterval * 1000 * backoffRef st"

text \<open>
  The timer callback: \<open>await fetchVehicles(); schedule()\<close>.  It returns the state after
  the fetch and the delay of the timer it arms.
\<close>

definition timerFires ::
  "(int \<Rightarrow> string) \<Rightarrow> nat \<Rightarrow> clock \<Rightarrow> FetchOutcome \<Rightarrow> PollState \<Rightarrow> PollState \<times> nat" where
  "timerFires numberText pollInterval clk outcome st =
     (let st' = fetchVehicles numberText clk False outcome st in (st', schedule pollInterval st'))"

text \<open>A run of fetches, scheduled or manual, each with its clock and its outcome.\<close>

fun runFetches ::
  "(int \<Rightarrow> string) \<Rightarrow> PollState \<Rightarrow> (clock \<times> bool \<times> FetchOutcome) list \<Rightarrow> PollState" where
  "runFetches numberText st [] = st"
| "runFetches numberText st ((clk, manual, outcome) # rest) =
     runFetches numberText (fetchVehicles numberText clk manual outcome st) rest"

text \<open>
  The timers of the effect.  \<open>armedWait\<close> is the delay in milliseconds of the timer that
  is pending, if one is.
\<close>

record Scheduler =
  pollState :: PollState
  armedWait :: "nat option"

text \<open>
  The body of the effect, on mount and whenever it runs again: \<open>fetchVehicles()\<close> is
  started and not awaited, and \<open>schedule()\<close> arms the timer at once, before that fetch
  has settled.
\<close>

definition mountEffect :: "nat \<Rightarrow> PollState \<Rightarrow> Scheduler" where
  "mountEffect pollInterval st = \<lparr> pollState = st, armedWait = Some (schedule pollInterval st) \<rparr>"

text \<open>
  What happens next: a fetch that no timer callback awaits settles (the fetch of the
  mount, with \<open>manual\<close> false, or a manual reload through \<open>reloadNow\<close>, with \<open>manual\<close> true),
  or the pending timer fires and its callback fetches, awaits and arms the next timer.
\<close>

datatype SchedulerEvent = Settles clock bool FetchOutcome | TimerFires clock FetchOutcome

fun schedulerStep :: "(int \<Rightarrow> string) \<Rightarrow> nat \<Rightarrow> Scheduler \<Rightarrow> SchedulerEvent \<Rightarrow> Scheduler" where
  "schedulerStep numberText pollInterval s (Settles clk manual outcome) =
     s\<lparr> pollState := fetchVehicles numberText clk manual outcome (pollState s) \<rparr>"
| "schedulerStep numberText pollInterval s (TimerFires clk outcome) =
     \<lparr> pollState = fst (timerFires numberText pollInterval clk outcome (pollState s)),
       armedWait = Some (snd (timerFires numberText pollInterval clk outcome (pollState s))) \<rparr>"

fun runScheduler ::
  "(int \<Rightarrow> string) \<Rightarrow> nat \<Rightarrow> Scheduler \<Rightarrow> SchedulerEvent list \<Rightarrow> Scheduler" where
  "runScheduler numberText pollInterval s [] = s"
| "runScheduler numberText pollInterval s (ev # evs) =
     runScheduler numberText pollInterval (schedulerStep numberText pollInterval s ev) evs"

section \<open>Heading estimator (VehicleLayer)\<close>

subsection \<open>Angle differences\<close>

text \<open>
  The two \<open>while\<close> loops of \<open>angleDiff\<close> and \<open>angleDelta\<close>.  Angles are real numbers
  and \<open>pi\<close> is the real number, so every loop ends after finitely many passes and
  each pass is exact; the rounding of a floating-point number, \<open>NaN\<close> and the infinities
  are not part of this model.
\<close>

function wrapDown :: "real \<Rightarrow> real" where
  "wrapDown d = (if d > pi then wrapDown (d - 2 * pi) else d)"
  by pat_completeness auto
termination
proof (relation "measure (\<lambda>d. nat \<lceil>d / (2 * pi)\<rceil>)")
  show "wf (measure (\<lambda>d. nat \<lceil>d / (2 * pi)\<rceil>))" by simp
next
  fix d :: real
  assume d: "pi < d"
  have "(d - 2 * pi) / (2 * pi) = d / (2 * pi) - 1"
    by (simp add: field_simps)
  then have c: "\<lceil>(d - 2 * pi) / (2 * pi)\<rceil> = \<lceil>d / (2 * pi)\<rceil> - 1"
    by (simp only: ceiling_diff_one)
  from d have "0 < d"
    using pi_gt_zero by linarith
  then have "0 < d / (2 * pi)"
    by (intro divide_pos_pos) simp_all
  then have "0 < \<lceil>d / (2 * pi)\<rceil>"
    by (simp only: zero_less_ceiling)
  with c have "nat \<lceil>(d - 2 * pi) / (2 * pi)\<rceil> < nat \<lceil>d / (2 * pi)\<rceil>"
    by linarith
  then show "(d - 2 * pi, d) \<in> measure (\<lambda>d. nat \<lceil>d / (2 * pi)\<rceil>)"
    by (simp only: in_measure)
qed

function wrapUp :: "real \<Rightarrow> real" where
  "wrapUp d = (if d < - pi then wrapUp (d + 2 * pi) else d)"
  by pat_completeness auto
termination
proof (relation "measure (\<lambda>d. nat \<lceil>(- d) / (2 * pi)\<rceil>)")
  show "wf (measure (\<lambda>d. nat \<lceil>(- d) / (2 * pi)\<rceil>))" by simp
next
  fix d :: real
  assume d: "d < - pi"
  have "(- (d + 2 * pi)) / (2 * pi) = (- d) / (2 * pi) - 1"
    by (simp add: field_simps)
  then have c: "\<lceil>(- (d + 2 * pi)) / (2 * pi)\<rceil> = \<lceil>(- d) / (2 * pi)\<rceil> - 1"
    by (simp only: ceiling_diff_one)
  from d have "0 < - d"
    using pi_gt_zero by linarith
  then have "0 < (- d) / (2 * pi)"
    by (intro divide_pos_pos) simp_all
  then have "0 < \<lceil>(- d) / (2 * pi)\<rceil>"
    by (simp only: zero_less_ceiling)
  with c have "nat \<lceil>(- (d + 2 * pi)) / (2 * pi)\<rceil> < nat \<lceil>(- d) / (2 * pi)\<rceil>"
    by linarith
  then show "(d + 2 * pi, d) \<in> measure (\<lambda>d. nat \<lceil>(- d) / (2 * pi)\<rceil>)"
    by (simp only: in_measure)
qed

declare wrapDown.simps [simp del]
declare wrapUp.simps [simp del]

definition angleDiff :: "real \<Rightarrow> real \<Rightarrow> real" where
  "angleDiff a b = \<bar>wrapUp (wrapDown (a - b))\<bar>"

definition angleDelta :: "real \<Rightarrow> real \<Rightarrow> real" where
  "angleDelta target current = wrapUp (wrapDown (target - current))"

subsection \<open>Per-frame smoothing\<close>

definition MAX_TURN_RATE :: real where
  "MAX_TURN_RATE = 120 * pi / 180"

definition TURN_SMOOTHING :: real where
  "TURN_SMOOTHING = 6"

text \<open>\<open>THREE.MathUtils.clamp(value, min, max)\<close>\<close>

definition clamp :: "real \<Rightarrow> real \<Rightarrow> real \<Rightarrow> real" where
  "clamp v lo hi = max lo (min hi v)"

text \<open>The turn applied to \<open>rotation.y\<close> in one frame of length \<open>dt\<close> seconds.\<close>

definition turnStep :: "real \<Rightarrow> real \<Rightarrow> real \<Rightarrow> real" where
  "turnStep dt targetHeading rotationY =
     (let delta = angleDelta targetHeading rotationY;
          desiredStep = delta * min 1 (dt * TURN_SMOOTHING);
          maxStep = MAX_TURN_RATE * dt
      in clamp desiredStep (- maxStep) maxStep)"

subsection \<open>Heading state per physical vehicle\<close>

record HeadingState =
  hs_x :: real
  hs_z :: real
  heading :: real
  roadKey :: "string option"

record RoadMatch =
  rm_heading :: real
  rm_roadKey :: string
  rm_score :: real

text \<open>
  The geometry of a rendered feature: a line of coordinates, several lines, or anything
  else.  A feature without a geometry type or without coordinates is \<open>None\<close>.
\<close>

datatype Geometry =
    LineString "real list list"
  | MultiLineString "real list list list"
  | OtherGeometry

text \<open>
  What the layer takes from the map host and the JavaScript runtime: the x and y of
  \<open>MercatorCoordinate.fromLngLat\<close>, the pixel position \<open>map.project\<close>, the features
  that \<open>map.queryRenderedFeatures\<close> finds in a box for a list of layers, \<open>Math.atan2\<close>
  and \<open>toFixed(6)\<close>.  None of them reads or writes the state of the layer.
\<close>

record MapHost =
  fromLngLat :: "real \<Rightarrow> real \<Rightarrow> real \<times> real"
  project :: "real \<Rightarrow> real \<Rightarrow> real \<times> real"
  queryRenderedFeatures :: "real \<times> real \<Rightarrow> real \<times> real \<Rightarrow> string list \<Rightarrow> Geometry option list"
  atan2 :: "real \<Rightarrow> real \<Rightarrow> real"
  toFixed6 :: "real \<Rightarrow> string"

text \<open>\<open>Math.hypot\<close> of two numbers.\<close>

definition hypot :: "real \<Rightarrow> real \<Rightarrow> real" where
  "hypot a b = sqrt (a * a + b * b)"

definition VISUAL_SCALE :: real where
  "VISUAL_SCALE = 65 / 10"

definition MAX_DIRECTION_CONE :: real where
  "MAX_DIRECTION_CONE = 75 * pi / 180"

definition HEADING_WEIGHT :: real where
  "HEADING_WEIGHT = 45"

definition SWITCH_PENALTY :: real where
  "SWITCH_PENALTY = 160"

text \<open>The part of a scene group that \<open>updateVehicles\<close> and the render loop touch.\<close>

record Group =
  kind :: VehicleType
  label :: string
  vid :: "string option"
  position_x :: real
  position_z :: real
  rotation_y :: real
  targetScale :: "real option"
  targetHeading :: "real option"

definition buildVehicle :: "VehicleType \<Rightarrow> string \<Rightarrow> Group" where
  "buildVehicle vt lineCode =
     \<lparr> kind = vt, label = lineCode, vid = None, position_x = 0, position_z = 0, rotation_y = 0,
       targetScale = None, targetHeading = None \<rparr>"

text \<open>
  The fields of the layer that the update reads and writes.  \<open>mapAttached\<close> tells whether
  \<open>this.map\<close> is set; \<open>tx\<close>, \<open>ty\<close> and \<open>scale\<close> are fixed by the constructor, and
  \<open>scale\<close>, the length of a metre in Mercator units, is positive.
\<close>

record LayerState =
  groups :: "string \<rightharpoonup> Group"
  layerData :: "string \<rightharpoonup> Vehicle"
  headingTracker :: "int nullable \<rightharpoonup> HeadingState"
  selectedVehicleId :: "string option"
  mapAttached :: bool
  roadLayerIds :: "string list"
  tx :: real
  ty :: real
  scale :: real

definition toLocal :: "MapHost \<Rightarrow> LayerState \<Rightarrow> real \<Rightarrow> real \<Rightarrow> real \<times> real" where
  "toLocal env st lng lat =
     (let m = fromLngLat env lng lat
      in ((fst m - tx st) / scale st, (snd m - ty st) / scale st))"

text \<open>\<open>segmentKey\<close>; the comparison of the two texts is the lexicographic one.\<close>

definition segmentKey :: "MapHost \<Rightarrow> real \<Rightarrow> real \<Rightarrow> real \<Rightarrow> real \<Rightarrow> string" where
  "segmentKey env aLng aLat bLng bLat =
     (let a = toFixed6 env aLng @ '','' @ toFixed6 env aLat;
          b = toFixed6 env bLng @ '','' @ toFixed6 env bLat
      in if a < b then a @ ''|'' @ b else b @ ''|'' @ a)"

text \<open>
  \<open>testSegment\<close> inside \<open>getRoadMatch\<close>, for the projected point \<open>p\<close>: the best match so
  far, replaced by this segment when it scores lower.  No match so far is a best score of
  infinity.
\<close>

definition testSegment ::
  "MapHost \<Rightarrow> LayerState \<Rightarrow> real \<times> real \<Rightarrow> real option \<Rightarrow> string option \<Rightarrow>
   RoadMatch option \<Rightarrow> real \<Rightarrow> real \<Rightarrow> real \<Rightarrow> real \<Rightarrow> RoadMatch option" where
  "testSegment env st p preferredHeading stickyRoadKey best aLng aLat bLng bLat =
     (let a = project env aLng aLat;
          b = project env bLng bLat;
          vx = fst b - fst a;
          vy = snd b - snd a;
          len2 = vx * vx + vy * vy
      in if len2 < 1 / 1000000 then best
         else
           (let wx = fst p - fst a;
                wy = snd p - snd a;
                t = max 0 (min 1 ((wx * vx + wy * vy) / len2));
                cx = fst a + t * vx;
                cy = snd a + t * vy;
                dx = fst p - cx;
                dy = snd p - cy;
                d2 = dx * dx + dy * dy;
                la = toLocal env st aLng aLat;
                lb = toLocal env st bLng bLat;
                hForward = - atan2 env (snd lb - snd la) (fst lb - fst la);
                hReverse = hForward + pi;
                hdg =
                  (case preferredHeading of
                     None \<Rightarrow> hForward
                   | Some ph \<Rightarrow>
                       if angleDiff hForward ph \<le> angleDiff hReverse ph then hForward else hReverse);
                headingDiff = (case preferredHeading of None \<Rightarrow> 0 | Some ph \<Rightarrow> angleDiff hdg ph)
            in if preferredHeading \<noteq> None \<and> headingDiff > MAX_DIRECTION_CONE then best
               else
                 (let headingPenalty =
                        (case preferredHeading of None \<Rightarrow> 0 | Some ph \<Rightarrow> headingDiff * HEADING_WEIGHT);
                      score0 = d2 + headingPenalty * headingPenalty;
                      key = segmentKey env aLng aLat bLng bLat;
                      score =
                        (case stickyRoadKey of
                           None \<Rightarrow> score0
                         | Some sticky \<Rightarrow>
                             if sticky \<noteq> [] \<and> key \<noteq> sticky then score0 + SWITCH_PENALTY else score0);
                      found = \<lparr> rm_heading = hdg, rm_roadKey = key, rm_score = score \<rparr>
                  in case best of
                       None \<Rightarrow> Some found
                     | Some m \<Rightarrow> if score < rm_score m then Some found else best)))"

text \<open>The loop over the consecutive coordinates of one line.\<close>

fun scanLine ::
  "(RoadMatch option \<Rightarrow> real \<Rightarrow> real \<Rightarrow> real \<Rightarrow> real \<Rightarrow> RoadMatch option) \<Rightarrow>
   RoadMatch option \<Rightarrow> real list list \<Rightarrow> RoadMatch option" where
  "scanLine test best (a # b # rest) =
     scanLine test
       (if length a \<ge> 2 \<and> length b \<ge> 2 then test best (a ! 0) (a ! 1) (b ! 0) (b ! 1) else best)
       (b # rest)"
| "scanLine test best other = best"

fun scanLines ::
  "(RoadMatch option \<Rightarrow> real \<Rightarrow> real \<Rightarrow> real \<Rightarrow> real \<Rightarrow> RoadMatch option) \<Rightarrow>
   RoadMatch option \<Rightarrow> real list list list \<Rightarrow> RoadMatch option" where
  "scanLines test best [] = best"
| "scanLines test best (coords # multi) = scanLines test (scanLine test best coords) multi"

text \<open>The loop over the features.\<close>

fun scanFeatures ::
  "(RoadMatch option \<Rightarrow> real \<Rightarrow> real \<Rightarrow> real \<Rightarrow> real \<Rightarrow> RoadMatch option) \<Rightarrow>
   RoadMatch option \<Rightarrow> Geometry option list \<Rightarrow> RoadMatch option" where
  "scanFeatures test best [] = best"
| "scanFeatures test best (f # fs) =
     scanFeatures test
       (case f of
          Some (LineString coords) \<Rightarrow> scanLine test best coords
        | Some (MultiLineString multi) \<Rightarrow> scanLines test best multi
        | other \<Rightarrow> best)
       fs"

definition getRoadMatch ::
  "MapHost \<Rightarrow> LayerState \<Rightarrow> real \<Rightarrow> real \<Rightarrow> real option \<Rightarrow> string option \<Rightarrow> RoadMatch option" where
  "getRoadMatch env st lng lat preferredHeading stickyRoadKey =
     (if \<not> mapAttached st \<or> roadLayerIds st = [] then None
      else
        (let p = project env lng lat;
             pad = 14;
             feats = queryRenderedFeatures env (fst p - pad, snd p - pad) (fst p + pad, snd p + pad)
                       (roadLayerIds st);
             best = scanFeatures (testSegment env st p preferredHeading stickyRoadKey) None feats
         in case best of
              None \<Rightarrow> None
            | Some m \<Rightarrow> if rm_score m > 16 * 16 then None else Some m))"

text \<open>The body of the loop over the vehicles in \<open>updateVehicles\<close>.\<close>

definition syncVehicle :: "MapHost \<Rightarrow> Vehicle \<Rightarrow> LayerState \<Rightarrow> LayerState" where
  "syncVehicle env v st =
     (let lx = fst (toLocal env st (longitude v) (latitude v));
          lz = snd (toLocal env st (longitude v) (latitude v));
          grp0 = (case groups st (v_id v) of
                    Some g \<Rightarrow> g
                  | None \<Rightarrow> (buildVehicle (vehicleType v) (line v))\<lparr>vid := Some (v_id v)\<rparr>);
          grp = grp0\<lparr> position_x := lx, position_z := lz,
                      targetScale := Some (if selectedVehicleId st = Some (v_id v)
                                           then VISUAL_SCALE * (125 / 100) else VISUAL_SCALE) \<rparr>;
          tracker = headingTracker st (vehicleID v);
          movementHeading =
            (case tracker of
               None \<Rightarrow> None
             | Some t \<Rightarrow>
                 (let mdx = lx - hs_x t; mdz = lz - hs_z t
                  in if hypot mdx mdz > 2 then Some (- atan2 env mdz mdx) else None));
          preferredHeading =
            (case movementHeading of Some h \<Rightarrow> Some h | None \<Rightarrow> map_option heading tracker);
          roadMatch = getRoadMatch env st (longitude v) (latitude v) preferredHeading
                        (case tracker of None \<Rightarrow> None | Some t \<Rightarrow> roadKey t);
          res =
            (case roadMatch of
               Some rm \<Rightarrow>
                 (case tracker of
                    Some t \<Rightarrow>
                      (let t' = t\<lparr> heading := rm_heading rm, hs_x := lx, hs_z := lz,
                                    roadKey := Some (rm_roadKey rm) \<rparr>
                       in ((headingTracker st)(vehicleID v \<mapsto> t'),
                           grp\<lparr>targetHeading := Some (heading t')\<rparr>))
                  | None \<Rightarrow>
                      ((headingTracker st)(vehicleID v \<mapsto>
                          \<lparr> hs_x = lx, hs_z = lz, heading = rm_heading rm,
                            roadKey = Some (rm_roadKey rm) \<rparr>),
                       grp\<lparr>targetHeading := Some (rm_heading rm), rotation_y := rm_heading rm\<rparr>))
             | None \<Rightarrow>
                 (case tracker of
                    Some t \<Rightarrow>
                      (let dx = lx - hs_x t; dz = lz - hs_z t; dist = hypot dx dz;
                           t' = (if dist > 2
                                 then t\<lparr>heading := - atan2 env dz dx, hs_x := lx, hs_z := lz\<rparr>
                                 else t)
                       in ((headingTracker st)(vehicleID v \<mapsto> t'),
                           grp\<lparr>targetHeading := Some (heading t')\<rparr>))
                  | None \<Rightarrow>
                      ((headingTracker st)(vehicleID v \<mapsto>
                          \<lparr> hs_x = lx, hs_z = lz, heading = 0, roadKey = None \<rparr>),
                       grp\<lparr>targetHeading := Some 0\<rparr>)))
      in st\<lparr> groups := (groups st)(v_id v \<mapsto> snd res),
              headingTracker := fst res,
              layerData := (layerData st)(v_id v \<mapsto> v) \<rparr>)"

fun syncAll :: "MapHost \<Rightarrow> Vehicle list \<Rightarrow> LayerState \<Rightarrow> LayerState" where
  "syncAll env [] st = st"
| "syncAll env (v # vs) st = syncAll env vs (syncVehicle env v st)"

text \<open>
  \<open>updateVehicles\<close>: the loop, then the removal of stale groups (with their data), then
  the clean-up of the heading tracker.
\<close>

definition updateVehicles :: "MapHost \<Rightarrow> Vehicle list \<Rightarrow> LayerState \<Rightarrow> LayerState" where
  "updateVehicles env vehicleList st =
     (let alive = set (map v_id vehicleList);
          st1 = syncAll env vehicleList st;
          st2 = st1\<lparr> groups := groups st1 |` alive,
                      layerData := (\<lambda>k. if k \<in> dom (groups st1) \<and> k \<notin> alive then None
                                         else layerData st1 k) \<rparr>;
          aliveVehicleIDs = set (map vehicleID vehicleList)
      in st2\<lparr> headingTracker := headingTracker st2 |` aliveVehicleIDs \<rparr>)"

text \<open>A run of updates, each with the map host as it is then and the list it is given.\<close>

fun runUpdates :: "LayerState \<Rightarrow> (MapHost \<times> Vehicle list) list \<Rightarrow> LayerState" where
  "runUpdates st [] = st"
| "runUpdates st ((env, vehicleList) # rest) = runUpdates (updateVehicles env vehicleList st) rest"

definition initialLayerState :: LayerState where
  "initialLayerState =
     \<lparr> groups = Map.empty, layerData = Map.empty, headingTracker = Map.empty,
       selectedVehicleId = None, mapAttached = True, roadLayerIds = [''road''],
       tx = 1 / 2, ty = 1 / 3, scale = 1 / 1000000 \<rparr>"

section \<open>Trip stops (utils/tripStops.ts)\<close>

text \<open>
  A value of \<open>JSON.parse\<close>.  A number literal too large for a double parses to an
  infinity (\<open>JInfinity\<close>); an object is the list of its properties.
\<close>

datatype json =
    JNull
  | JBool bool
  | JNumber real
  | JInfinity
  | JString string
  | JArray "json list"
  | JObject "(string \<times> json) list"















section \<open>Route geometry stitcher (hooks/useRoutedPath)\<close>

definition MAX_WAYPOINTS :: nat where
  "MAX_WAYPOINTS = 80"

definition CHUNK_OVERLAP :: nat where
  "CHUNK_OVERLAP = 2"

text \<open>A coordinate \<open>[lng, lat]\<close>.\<close>

type_synonym coord = "real \<times> real"

text \<open>\<open>xs.slice(i, e)\<close> for \<open>0 \<le> i\<close> and \<open>0 \<le> e\<close>.\<close>

definition slice :: "nat \<Rightarrow> nat \<Rightarrow> 'a list \<Rightarrow> 'a list" where
  "slice i e xs = take (e - i) (drop i xs)"

text \<open>
  The chunking loop of \<open>fetchChunkedRoute\<close> on a list of \<open>n\<close> waypoints, from index \<open>i\<close>:
  the pairs \<open>(i, end)\<close> of the slices it pushes, in order.
\<close>

function chunkBounds :: "nat \<Rightarrow> nat \<Rightarrow> (nat \<times> nat) list" where
  "chunkBounds n i =
     (if i < n then
        (let e = min (i + MAX_WAYPOINTS) n
         in if e \<ge> n then [(i, e)] else (i, e) # chunkBounds n (e - CHUNK_OVERLAP))
      else [])"
  by pat_completeness auto
termination
  by (relation "measure (\<lambda>(n, i). n - i)") (auto simp: MAX_WAYPOINTS_def CHUNK_OVERLAP_def Let_def)

declare chunkBounds.simps [simp del]

definition chunksOf :: "'a list \<Rightarrow> 'a list list" where
  "chunksOf waypoints = map (\<lambda>(i, e). slice i e waypoints) (chunkBounds (length waypoints) 0)"















section \<open>Auxiliary notions and worked examples\<close>

text \<open>
  The composite id as the specification words it: physical id and last-stop order, each
  replaced by 0 when missing, joined by a hyphen.
\<close>

definition specCompositeId :: "(int \<Rightarrow> string) \<Rightarrow> RawVehicle \<Rightarrow> string" where
  "specCompositeId numberText raw =
     numberText (orElse (r_vehicleID raw) 0) @ ''-'' @ numberText (orElse (r_lastStopOrder raw) 0)"

text \<open>A previous canonical map holding the sample record under its composite id.\<close>

definition previousSample :: VehicleMap where
  "previousSample = [''7-3'' \<mapsto> normalizeVehicle numberToString 0 rawSample None]"

text \<open>
  A store with the previous map at address 0 and a raw list of one record at address 1.
\<close>

definition storeSample :: Store where
  "storeSample =
     \<lparr> mapObjects = [0 \<mapsto> previousSample], arrayObjects = [1 \<mapsto> [rawSample]], nextAddress = 2 \<rparr>"

text \<open>A record with its clock reading removed, to compare records up to \<open>lastSeen\<close>.\<close>

definition clearLastSeen :: "Vehicle \<Rightarrow> Vehicle" where
  "clearLastSeen v = v\<lparr>lastSeen := 0\<rparr>"

text \<open>A clock, five failed fetches of every kind in a row, and a successful fetch.\<close>

definition feedClock :: clock where
  "feedClock k = 1700000000000 + int k"

definition failureRun :: "(clock \<times> bool \<times> FetchOutcome) list" where
  "failureRun =
     [(feedClock, False, FetchRejects (Error ''Failed to fetch'')),
      (feedClock, False, Response 503 (BodyJson OtherShape)),
      (feedClock, True, Response 200 (BodyRejects (Error ''Unexpected token''))),
      (feedClock, False, FetchRejects NonError),
      (feedClock, False, Response 404 (BodyJson (Wrapped [])))]"

definition feedSuccess :: FetchOutcome where
  "feedSuccess = Response 200 (BodyJson (Wrapped [rawSample]))"

text \<open>Fetches that settle one after the other while no timer callback awaits them.\<close>

definition settles :: "(clock \<times> bool \<times> FetchOutcome) list \<Rightarrow> SchedulerEvent list" where
  "settles evs = map (\<lambda>(clk, manual, outcome). Settles clk manual outcome) evs"

definition loadedState :: PollState where
  "loadedState = fetchVehicles numberToString feedClock False feedSuccess initialPollState"

text \<open>
  A map host that renders one road along the parallel of the sample vehicle, and the
  sample vehicle at two consecutive polls: the same physical id 7 under the composite ids
  \<open>7-3\<close> and \<open>7-4\<close>.
\<close>

definition hostSample :: MapHost where
  "hostSample =
     \<lparr> fromLngLat = (\<lambda>lng lat. (lng / 360 + 1 / 2, lat / 360)),
       project = (\<lambda>lng lat. (lng * 1000, lat * 1000)),
       queryRenderedFeatures =
         (\<lambda>lo hi layers. [Some (LineString [[17, 4815 / 100], [18, 4815 / 100]]), None]),
       atan2 = (\<lambda>y x. 0),
       toFixed6 = (\<lambda>r. ''0.000000'') \<rparr>"

definition vehicleAtStop3 :: Vehicle where
  "vehicleAtStop3 = normalizeVehicle numberToString 0 rawSample None"

definition vehicleAtStop4 :: Vehicle where
  "vehicleAtStop4 = normalizeVehicle numberToString 5000 (rawSample\<lparr>r_lastStopOrder := Val 4\<rparr>) None"



text \<open>A list of 150 waypoints, two stops, and a routing service that is down.\<close>

definition waypoints150 :: "coord list" where
  "waypoints150 = map (\<lambda>k. (17 + real k / 1000, 48)) [0..<150]"









section \<open>Properties of the position normalizer\<close>

subsection \<open>Evaluation of the sample record\<close>

lemma makeId_rawSample: "makeId numberToString rawSample = ''7-3''"
  by code_simp

lemma rawSample_fields: "r_vehicleID rawSample = Val 7" "r_lastStopOrder rawSample = Val 3"
  by (simp_all add: rawSample_def)

lemma numberToString_small:
  "numberToString 7 = ''7''" "numberToString 3 = ''3''" "numberToString 0 = ''0''"
  by code_simp+

lemma latitude_normalize_rawSample:
  "latitude (normalizeVehicle numberText now rawSample ex) = 4815 / 100"
  "longitude (normalizeVehicle numberText now rawSample ex) = 1711 / 100"
  by (simp_all add: normalizeVehicle_def rawSample_def Let_def)

subsection \<open>The record built for one raw record\<close>

lemma v_id_normalizeVehicle: "v_id (normalizeVehicle numberText now raw ex) = makeId numberText raw"
  by (simp add: normalizeVehicle_def Let_def)

lemma prev_normalizeVehicle:
  "prevLatitude (normalizeVehicle numberText now raw (Some m)) = map_option latitude (m (makeId numberText raw))"
  "prevLongitude (normalizeVehicle numberText now raw (Some m)) = map_option longitude (m (makeId numberText raw))"
  by (simp_all add: normalizeVehicle_def Let_def)

text \<open>
  An entry of the map that the loop returns was there before the loop, or is the record
  built from a raw record of the list with that composite id.
\<close>

lemma normalizeLoop_entry:
  "normalizeLoop numberText clk k rs ex m ident = Some v \<Longrightarrow>
     m ident = Some v \<or>
     (\<exists>j raw. raw \<in> set rs \<and> v = normalizeVehicle numberText (clk j) raw ex \<and> makeId numberText raw = ident)"
proof (induction rs arbitrary: k m)
  case Nil
  then show ?case by simp
next
  case (Cons r rs)
  from Cons.prems
  have "normalizeLoop numberText clk (Suc k) rs ex (m(makeId numberText r \<mapsto> normalizeVehicle numberText (clk k) r ex)) ident = Some v"
    by (simp add: Let_def v_id_normalizeVehicle)
  from Cons.IH[OF this] show ?case
    by (auto split: if_splits)
qed

subsection \<open>Previous position\<close>

text \<open>
  Claim C3.  For every raw list and previous canonical map: a raw record whose composite
  id is a key of the previous map is normalized to a record whose \<open>prevLatitude\<close> and
  \<open>prevLongitude\<close> are exactly the latitude and longitude stored under that id, and a
  raw record whose composite id is not a key gets both unset.  The same holds of every
  record of the map that \<open>normalizeVehicles\<close> returns, under the key it is stored at.
\<close>

theorem normalize_prev_position:
  "(\<forall>raw \<in> set rawList.
      (case previous (makeId numberText raw) of
         Some old \<Rightarrow>
           prevLatitude (normalizeVehicle numberText now raw (Some previous)) = Some (latitude old) \<and>
           prevLongitude (normalizeVehicle numberText now raw (Some previous)) = Some (longitude old)
       | None \<Rightarrow>
           prevLatitude (normalizeVehicle numberText now raw (Some previous)) = None \<and>
           prevLongitude (normalizeVehicle numberText now raw (Some previous)) = None)) \<and>
   (\<forall>ident v. normalizeVehicles numberText clk rawList (Some previous) ident = Some v \<longrightarrow>
      (case previous ident of
         Some old \<Rightarrow> prevLatitude v = Some (latitude old) \<and> prevLongitude v = Some (longitude old)
       | None \<Rightarrow> prevLatitude v = None \<and> prevLongitude v = None))"
proof (intro conjI ballI allI impI)
  fix raw
  show "case previous (makeId numberText raw) of
          Some old \<Rightarrow>
            prevLatitude (normalizeVehicle numberText now raw (Some previous)) = Some (latitude old) \<and>
            prevLongitude (normalizeVehicle numberText now raw (Some previous)) = Some (longitude old)
        | None \<Rightarrow>
            prevLatitude (normalizeVehicle numberText now raw (Some previous)) = None \<and>
            prevLongitude (normalizeVehicle numberText now raw (Some previous)) = None"
    by (simp add: prev_normalizeVehicle split: option.split)
next
  fix ident v
  assume "normalizeVehicles numberText clk rawList (Some previous) ident = Some v"
  then have "\<exists>j raw. raw \<in> set rawList \<and> v = normalizeVehicle numberText (clk j) raw (Some previous) \<and>
               makeId numberText raw = ident"
    using normalizeLoop_entry[where clk = clk and k = 0 and rs = rawList and ex = "Some previous"
        and m = Map.empty and ident = ident and v = v]
    by (simp add: normalizeVehicles_def)
  then obtain j raw where "v = normalizeVehicle numberText (clk j) raw (Some previous)" "makeId numberText raw = ident"
    by blast
  then show "case previous ident of
          Some old \<Rightarrow> prevLatitude v = Some (latitude old) \<and> prevLongitude v = Some (longitude old)
        | None \<Rightarrow> prevLatitude v = None \<and> prevLongitude v = None"
    by (auto simp: prev_normalizeVehicle split: option.split)
qed

theorem normalize_prev_position_witness:
  "prevLatitude (normalizeVehicle numberToString 1 rawSample (Some previousSample)) = Some (4815 / 100) \<and>
   prevLongitude (normalizeVehicle numberToString 1 rawSample (Some previousSample)) = Some (1711 / 100)"
  using normalize_prev_position[where numberText = numberToString and rawList = "[rawSample]"
      and previous = previousSample and now = 1]
  by (simp add: makeId_rawSample previousSample_def latitude_normalize_rawSample)

subsection \<open>Composite id\<close>

lemma fields_normalizeVehicle:
  "vehicleID (normalizeVehicle numberText now raw ex) = r_vehicleID raw"
  "lastStopOrder (normalizeVehicle numberText now raw ex) = orElse (r_lastStopOrder raw) 0"
  by (simp_all add: normalizeVehicle_def Let_def)

lemma makeId_missing:
  assumes "numberText 0 = ''0''"
    and "r_vehicleID raw = Undefined \<or> r_vehicleID raw = Null \<or>
         r_lastStopOrder raw = Undefined \<or> r_lastStopOrder raw = Null"
  shows "makeId numberText raw \<noteq> specCompositeId numberText raw"
proof (cases "r_vehicleID raw")
  case Undefined
  with assms(1) show ?thesis
    by (simp add: makeId_def specCompositeId_def)
next
  case Null
  with assms(1) show ?thesis
    by (simp add: makeId_def specCompositeId_def)
next
  case (Val p)
  with assms(2) have "r_lastStopOrder raw = Undefined \<or> r_lastStopOrder raw = Null"
    by simp
  with Val assms(1) show ?thesis
    by (auto simp: makeId_def specCompositeId_def)
qed

text \<open>
  Claim C4, as the code has it.  The composite id of the normalized record is the text of
  the physical id, a hyphen, and the text of the last-stop order, where the text of a
  missing field is \<open>undefined\<close> (or \<open>null\<close>) and not the text of 0.  So for every raw
  record whose physical id and last-stop order are both present the id is
  \<open><physicalId>-<lastStopOrder>\<close>, as the specification words it; a record without its
  physical id gets an id that begins with \<open>undefined-\<close>, a record without its last-stop
  order an id that ends with \<open>-undefined\<close>, and whenever one of the two is missing the id
  differs from the one the specification words (for a conversion that gives \<open>0\<close> for 0).
  In the fields of the record a missing physical id stays missing, and only a missing
  last-stop order is replaced by 0.
\<close>

theorem composite_id_of_fields:
  "v_id (normalizeVehicle numberText now raw existingMap) =
     template numberText (r_vehicleID raw) @ ''-'' @ template numberText (r_lastStopOrder raw) \<and>
   (r_vehicleID raw = Val p \<and> r_lastStopOrder raw = Val q \<longrightarrow>
      v_id (normalizeVehicle numberText now raw existingMap) = numberText p @ ''-'' @ numberText q \<and>
      v_id (normalizeVehicle numberText now raw existingMap) = specCompositeId numberText raw) \<and>
   (r_vehicleID raw = Undefined \<longrightarrow>
      v_id (normalizeVehicle numberText now raw existingMap) =
        ''undefined-'' @ template numberText (r_lastStopOrder raw)) \<and>
   (r_lastStopOrder raw = Undefined \<longrightarrow>
      v_id (normalizeVehicle numberText now raw existingMap) =
        template numberText (r_vehicleID raw) @ ''-undefined'') \<and>
   (numberText 0 = ''0'' \<and>
    (r_vehicleID raw = Undefined \<or> r_vehicleID raw = Null \<or>
     r_lastStopOrder raw = Undefined \<or> r_lastStopOrder raw = Null) \<longrightarrow>
      v_id (normalizeVehicle numberText now raw existingMap) \<noteq> specCompositeId numberText raw) \<and>
   vehicleID (normalizeVehicle numberText now raw existingMap) = r_vehicleID raw \<and>
   lastStopOrder (normalizeVehicle numberText now raw existingMap) = orElse (r_lastStopOrder raw) 0"
proof -
  have 1: "v_id (normalizeVehicle numberText now raw existingMap) =
     template numberText (r_vehicleID raw) @ ''-'' @ template numberText (r_lastStopOrder raw)"
    by (simp add: v_id_normalizeVehicle makeId_def)
  have 2: "r_vehicleID raw = Val p \<and> r_lastStopOrder raw = Val q \<longrightarrow>
      v_id (normalizeVehicle numberText now raw existingMap) = numberText p @ ''-'' @ numberText q \<and>
      v_id (normalizeVehicle numberText now raw existingMap) = specCompositeId numberText raw"
    by (simp add: v_id_normalizeVehicle makeId_def specCompositeId_def)
  have 3: "r_vehicleID raw = Undefined \<longrightarrow>
      v_id (normalizeVehicle numberText now raw existingMap) =
        ''undefined-'' @ template numberText (r_lastStopOrder raw)"
    by (simp add: v_id_normalizeVehicle makeId_def)
  have 4: "r_lastStopOrder raw = Undefined \<longrightarrow>
      v_id (normalizeVehicle numberText now raw existingMap) =
        template numberText (r_vehicleID raw) @ ''-undefined''"
    by (simp add: v_id_normalizeVehicle makeId_def)
  have 5: "numberText 0 = ''0'' \<and>
    (r_vehicleID raw = Undefined \<or> r_vehicleID raw = Null \<or>
     r_lastStopOrder raw = Undefined \<or> r_lastStopOrder raw = Null) \<longrightarrow>
      v_id (normalizeVehicle numberText now raw existingMap) \<noteq> specCompositeId numberText raw"
    using makeId_missing[where numberText = numberText and raw = raw]
    by (simp only: v_id_normalizeVehicle) blast
  note 6 = fields_normalizeVehicle[where numberText = numberText and now = now and raw = raw
      and ex = existingMap]
  from 1 2 3 4 5 6 show ?thesis by blast
qed

theorem composite_id_of_fields_witness:
  "v_id (normalizeVehicle numberToString 0 rawSample None) = ''7-3'' \<and>
   v_id (normalizeVehicle numberToString 0 (rawSample\<lparr>r_vehicleID := Undefined\<rparr>) None) =
     ''undefined-3'' \<and>
   v_id (normalizeVehicle numberToString 0 (rawSample\<lparr>r_vehicleID := Undefined\<rparr>) None) \<noteq>
     specCompositeId numberToString (rawSample\<lparr>r_vehicleID := Undefined\<rparr>) \<and>
   vehicleID (normalizeVehicle numberToString 0 (rawSample\<lparr>r_vehicleID := Undefined\<rparr>) None) =
     Undefined"
proof -
  let ?raw = "rawSample\<lparr>r_vehicleID := Undefined\<rparr>"
  note a = composite_id_of_fields[where numberText = numberToString and raw = rawSample
      and p = 7 and q = 3 and now = 0 and existingMap = None]
  note b = composite_id_of_fields[where numberText = numberToString and raw = ?raw
      and p = 7 and q = 3 and now = 0 and existingMap = None]
  have f: "r_vehicleID ?raw = Undefined" "r_lastStopOrder ?raw = Val 3"
    by (simp_all add: rawSample_def)
  from a have 1: "v_id (normalizeVehicle numberToString 0 rawSample None) = ''7-3''"
    by (simp add: rawSample_fields numberToString_small)
  from b f have 2: "v_id (normalizeVehicle numberToString 0 ?raw None) = ''undefined-3''"
    by (simp add: numberToString_small)
  from b f have 3: "v_id (normalizeVehicle numberToString 0 ?raw None) \<noteq>
      specCompositeId numberToString ?raw"
    using numberToString_small(3) by blast
  from b f have 4: "vehicleID (normalizeVehicle numberToString 0 ?raw None) = Undefined"
    by simp
  from 1 2 3 4 show ?thesis by blast
qed

text \<open>
  No 0 stands in for a missing field when the id is formed: the sample record without its
  last-stop order gets the id \<open>7-undefined\<close>, not \<open>7-0\<close>, and without its physical id
  the id \<open>undefined-3\<close>, not \<open>0-3\<close>.
\<close>

theorem composite_id_counterexample:
  "v_id (normalizeVehicle numberToString 0 (rawSample\<lparr>r_lastStopOrder := Undefined\<rparr>) None) = ''7-undefined'' \<and>
   specCompositeId numberToString (rawSample\<lparr>r_lastStopOrder := Undefined\<rparr>) = ''7-0'' \<and>
   v_id (normalizeVehicle numberToString 0 (rawSample\<lparr>r_vehicleID := Undefined\<rparr>) None) = ''undefined-3'' \<and>
   specCompositeId numberToString (rawSample\<lparr>r_vehicleID := Undefined\<rparr>) = ''0-3''"
  by (simp add: v_id_normalizeVehicle makeId_def specCompositeId_def rawSample_def numberToString_small)

subsection \<open>Dependence on the clock\<close>

lemma normalizeVehicle_clock:
  "clearLastSeen (normalizeVehicle numberText now1 raw ex) = clearLastSeen (normalizeVehicle numberText now2 raw ex)"
  by (simp add: normalizeVehicle_def clearLastSeen_def Let_def)

lemma normalizeLoop_clock:
  "\<forall>ident. map_option clearLastSeen (m1 ident) = map_option clearLastSeen (m2 ident) \<Longrightarrow>
   map_option clearLastSeen (normalizeLoop numberText clk1 k1 rs ex m1 ident) =
   map_option clearLastSeen (normalizeLoop numberText clk2 k2 rs ex m2 ident)"
proof (induction rs arbitrary: k1 k2 m1 m2)
  case Nil
  then show ?case by simp
next
  case (Cons r rs)
  let ?v1 = "normalizeVehicle numberText (clk1 k1) r ex" and ?v2 = "normalizeVehicle numberText (clk2 k2) r ex"
  have "\<forall>ident. map_option clearLastSeen ((m1(makeId numberText r \<mapsto> ?v1)) ident) =
                map_option clearLastSeen ((m2(makeId numberText r \<mapsto> ?v2)) ident)"
    using Cons.prems normalizeVehicle_clock[where ?now1.0 = "clk1 k1" and raw = r and ex = ex
        and ?now2.0 = "clk2 k2"] by simp
  then have "map_option clearLastSeen (normalizeLoop numberText clk1 (Suc k1) rs ex (m1(makeId numberText r \<mapsto> ?v1)) ident) =
             map_option clearLastSeen (normalizeLoop numberText clk2 (Suc k2) rs ex (m2(makeId numberText r \<mapsto> ?v2)) ident)"
    by (rule Cons.IH)
  then show ?case
    by (simp only: normalizeLoop.simps Let_def v_id_normalizeVehicle)
qed

lemma normalizeLoop_same_clock:
  "\<forall>j < length rs. clk1 (k + j) = clk2 (k + j) \<Longrightarrow>
   normalizeLoop numberText clk1 k rs ex m = normalizeLoop numberText clk2 k rs ex m"
proof (induction rs arbitrary: k m)
  case Nil
  then show ?case by simp
next
  case (Cons r rs)
  from Cons.prems have here: "clk1 k = clk2 k"
    by (metis add.right_neutral length_greater_0_conv list.distinct(1))
  have "\<forall>j < length rs. clk1 (Suc k + j) = clk2 (Suc k + j)"
  proof (intro allI impI)
    fix j assume "j < length rs"
    then have "Suc j < length (r # rs)" by simp
    with Cons.prems have "clk1 (k + Suc j) = clk2 (k + Suc j)" by blast
    then show "clk1 (Suc k + j) = clk2 (Suc k + j)" by simp
  qed
  then have step: "normalizeLoop numberText clk1 (Suc k) rs ex m' = normalizeLoop numberText clk2 (Suc k) rs ex m'" for m'
    by (rule Cons.IH)
  show ?case
    by (simp only: normalizeLoop.simps Let_def here step)
qed

subsection \<open>The store after a normalization\<close>

lemma arrayObjects_mapSet: "arrayObjects (mapSet a k v st) = arrayObjects st"
  by (simp add: mapSet_def split: option.split)

lemma mapObjects_mapSet_other: "b \<noteq> a \<Longrightarrow> mapObjects (mapSet a k v st) b = mapObjects st b"
  by (simp add: mapSet_def split: option.split)

lemma mapObjects_mapSet_same:
  "mapObjects st a = Some m \<Longrightarrow> mapObjects (mapSet a k v st) a = Some (m(k \<mapsto> v))"
  by (simp add: mapSet_def)

lemma deref_mapSet: "existingRef \<noteq> Some a \<Longrightarrow> deref (mapSet a k v st) existingRef = deref st existingRef"
  by (cases existingRef) (auto simp: deref_def mapObjects_mapSet_other)

lemma arrayObjects_normalizeLoopAt:
  "arrayObjects (normalizeLoopAt numberText clk i rawRef existingRef mapRef st) = arrayObjects st"
proof (induction numberText clk i rawRef existingRef mapRef st rule: normalizeLoopAt.induct)
  case (1 numberText clk i rawRef existingRef mapRef st)
  show ?case
  proof (cases "arrayObjects st rawRef")
    case None
    then show ?thesis
      by (subst normalizeLoopAt.simps) simp
  next
    case (Some rawList)
    show ?thesis
    proof (cases "i < length rawList")
      case True
      from "1.IH"[OF Some True] Some True show ?thesis
        by (subst normalizeLoopAt.simps) (simp add: arrayObjects_mapSet)
    next
      case False
      with Some show ?thesis
        by (subst normalizeLoopAt.simps) simp
    qed
  qed
qed

lemma mapObjects_normalizeLoopAt_other:
  "a \<noteq> mapRef \<Longrightarrow>
     mapObjects (normalizeLoopAt numberText clk i rawRef existingRef mapRef st) a = mapObjects st a"
proof (induction numberText clk i rawRef existingRef mapRef st rule: normalizeLoopAt.induct)
  case (1 numberText clk i rawRef existingRef mapRef st)
  show ?case
  proof (cases "arrayObjects st rawRef")
    case None
    then show ?thesis
      by (subst normalizeLoopAt.simps) simp
  next
    case (Some rawList)
    show ?thesis
    proof (cases "i < length rawList")
      case True
      from "1.IH"[OF Some True "1.prems"] "1.prems" Some True show ?thesis
        by (subst normalizeLoopAt.simps) (simp add: mapObjects_mapSet_other)
    next
      case False
      with Some show ?thesis
        by (subst normalizeLoopAt.simps) simp
    qed
  qed
qed

lemma mapObjects_normalizeLoopAt_same:
  "arrayObjects st rawRef = Some rawList \<Longrightarrow> mapObjects st mapRef = Some m0 \<Longrightarrow>
   existingRef \<noteq> Some mapRef \<Longrightarrow>
     mapObjects (normalizeLoopAt numberText clk i rawRef existingRef mapRef st) mapRef =
       Some (normalizeLoop numberText clk i (drop i rawList) (deref st existingRef) m0)"
proof (induction numberText clk i rawRef existingRef mapRef st arbitrary: m0
    rule: normalizeLoopAt.induct)
  case (1 numberText clk i rawRef existingRef mapRef st)
  note arr = "1.prems"(1) and m0 = "1.prems"(2) and ne = "1.prems"(3)
  show ?case
  proof (cases "i < length rawList")
    case True
    let ?v = "normalizeVehicle numberText (clk i) (rawList ! i) (deref st existingRef)"
    let ?st = "mapSet mapRef (v_id ?v) ?v st"
    have a: "arrayObjects ?st rawRef = Some rawList"
      using arr by (simp add: arrayObjects_mapSet)
    have b: "mapObjects ?st mapRef = Some (m0(v_id ?v \<mapsto> ?v))"
      using m0 by (rule mapObjects_mapSet_same)
    have d: "deref ?st existingRef = deref st existingRef"
      using ne by (rule deref_mapSet)
    from "1.IH"[OF arr True a b ne]
    have "mapObjects (normalizeLoopAt numberText clk (Suc i) rawRef existingRef mapRef ?st) mapRef =
          Some (normalizeLoop numberText clk (Suc i) (drop (Suc i) rawList) (deref st existingRef)
                  (m0(v_id ?v \<mapsto> ?v)))"
      by (simp only: d)
    moreover have "drop i rawList = rawList ! i # drop (Suc i) rawList"
      using True by (simp add: Cons_nth_drop_Suc)
    moreover have "normalizeLoopAt numberText clk i rawRef existingRef mapRef st =
        normalizeLoopAt numberText clk (Suc i) rawRef existingRef mapRef ?st"
      using arr True by (subst normalizeLoopAt.simps) simp
    ultimately show ?thesis
      by (simp add: Let_def)
  next
    case False
    then have "normalizeLoopAt numberText clk i rawRef existingRef mapRef st = st"
      using arr by (subst normalizeLoopAt.simps) simp
    with False m0 show ?thesis by simp
  qed
qed

lemma normalizeVehiclesAt_store:
  assumes "arrayObjects st rawRef = Some rawList"
    and "\<forall>a. existingRef = Some a \<longrightarrow> a < nextAddress st"
  shows "fst (normalizeVehiclesAt numberText clk rawRef existingRef st) = nextAddress st"
    and "arrayObjects (snd (normalizeVehiclesAt numberText clk rawRef existingRef st)) = arrayObjects st"
    and "\<forall>a. a \<noteq> nextAddress st \<longrightarrow>
           mapObjects (snd (normalizeVehiclesAt numberText clk rawRef existingRef st)) a = mapObjects st a"
    and "deref (snd (normalizeVehiclesAt numberText clk rawRef existingRef st)) existingRef =
           deref st existingRef"
    and "mapObjects (snd (normalizeVehiclesAt numberText clk rawRef existingRef st)) (nextAddress st) =
           Some (normalizeVehicles numberText clk rawList (deref st existingRef))"
proof -
  let ?m = "nextAddress st"
  let ?st0 = "snd (newMap st)"
  have f: "fst (newMap st) = ?m"
    by (simp add: newMap_def)
  have a0: "arrayObjects ?st0 = arrayObjects st"
    by (simp add: newMap_def)
  have o0: "a \<noteq> ?m \<Longrightarrow> mapObjects ?st0 a = mapObjects st a" for a
    by (simp add: newMap_def)
  have s0: "mapObjects ?st0 ?m = Some Map.empty"
    by (simp add: newMap_def)
  from assms(2) have ne: "existingRef \<noteq> Some ?m"
    by auto
  then have d0: "deref ?st0 existingRef = deref st existingRef"
    by (cases existingRef) (auto simp: deref_def o0)
  show 1: "fst (normalizeVehiclesAt numberText clk rawRef existingRef st) = nextAddress st"
    by (simp add: normalizeVehiclesAt_def f)
  show "arrayObjects (snd (normalizeVehiclesAt numberText clk rawRef existingRef st)) = arrayObjects st"
    by (simp add: normalizeVehiclesAt_def arrayObjects_normalizeLoopAt a0)
  show 3: "\<forall>a. a \<noteq> nextAddress st \<longrightarrow>
           mapObjects (snd (normalizeVehiclesAt numberText clk rawRef existingRef st)) a = mapObjects st a"
    by (simp add: normalizeVehiclesAt_def f mapObjects_normalizeLoopAt_other o0)
  from ne 3 show "deref (snd (normalizeVehiclesAt numberText clk rawRef existingRef st)) existingRef =
           deref st existingRef"
    by (cases existingRef) (auto simp: deref_def)
  have "arrayObjects ?st0 rawRef = Some rawList"
    using assms(1) by (simp add: a0)
  from mapObjects_normalizeLoopAt_same[OF this s0 ne, where numberText = numberText and clk = clk
      and i = 0]
  show "mapObjects (snd (normalizeVehiclesAt numberText clk rawRef existingRef st)) (nextAddress st) =
           Some (normalizeVehicles numberText clk rawList (deref st existingRef))"
    by (simp add: normalizeVehiclesAt_def f d0 normalizeVehicles_def)
qed

lemma normalizeVehicles_single:
  "normalizeVehicles numberText clk [raw] ex (makeId numberText raw) = Some (normalizeVehicle numberText (clk 0) raw ex)"
  by (simp add: normalizeVehicles_def Let_def v_id_normalizeVehicle)

lemma lastSeen_normalizeVehicle: "lastSeen (normalizeVehicle numberText now raw ex) = now"
  by (simp add: normalizeVehicle_def Let_def)

text \<open>
  Claim C5, as the code has it.  \<open>normalizeVehicles\<close> is a function of the raw list, the
  previous map and the clock readings it takes for \<open>lastSeen\<close>, and of nothing else: two
  evaluations on the same raw list and previous map give maps with the same keys whose
  records agree in every field but \<open>lastSeen\<close>, and when the clock readings agree as
  well, the two maps are equal.  Neither the raw list nor the previous map is modified:
  on a store where the raw list is an array and the previous map, if one is passed, is an
  object of the store, the call returns the address of a new map that holds the result,
  and it leaves every array, every other map and so the previous map as they are.
\<close>

theorem normalize_deterministic_up_to_clock:
  "(\<forall>ident. map_option clearLastSeen (normalizeVehicles numberText clk1 rawList existingMap ident) =
             map_option clearLastSeen (normalizeVehicles numberText clk2 rawList existingMap ident)) \<and>
   ((\<forall>j < length rawList. clk1 j = clk2 j) \<longrightarrow>
      normalizeVehicles numberText clk1 rawList existingMap = normalizeVehicles numberText clk2 rawList existingMap) \<and>
   (arrayObjects st rawRef = Some rawList \<and> (\<forall>a. existingRef = Some a \<longrightarrow> a < nextAddress st) \<longrightarrow>
      fst (normalizeVehiclesAt numberText clk1 rawRef existingRef st) = nextAddress st \<and>
      mapObjects (snd (normalizeVehiclesAt numberText clk1 rawRef existingRef st)) (nextAddress st) =
        Some (normalizeVehicles numberText clk1 rawList (deref st existingRef)) \<and>
      arrayObjects (snd (normalizeVehiclesAt numberText clk1 rawRef existingRef st)) = arrayObjects st \<and>
      (\<forall>a. a \<noteq> nextAddress st \<longrightarrow>
         mapObjects (snd (normalizeVehiclesAt numberText clk1 rawRef existingRef st)) a = mapObjects st a) \<and>
      deref (snd (normalizeVehiclesAt numberText clk1 rawRef existingRef st)) existingRef =
        deref st existingRef)"
proof -
  have 1: "\<forall>ident. map_option clearLastSeen (normalizeVehicles numberText clk1 rawList existingMap ident) =
             map_option clearLastSeen (normalizeVehicles numberText clk2 rawList existingMap ident)"
  proof
    fix ident
    show "map_option clearLastSeen (normalizeVehicles numberText clk1 rawList existingMap ident) =
          map_option clearLastSeen (normalizeVehicles numberText clk2 rawList existingMap ident)"
      unfolding normalizeVehicles_def by (rule normalizeLoop_clock) simp
  qed
  have 2: "(\<forall>j < length rawList. clk1 j = clk2 j) \<longrightarrow>
      normalizeVehicles numberText clk1 rawList existingMap = normalizeVehicles numberText clk2 rawList existingMap"
  proof
    assume "\<forall>j < length rawList. clk1 j = clk2 j"
    then show "normalizeVehicles numberText clk1 rawList existingMap = normalizeVehicles numberText clk2 rawList existingMap"
      unfolding normalizeVehicles_def
      using normalizeLoop_same_clock[where rs = rawList and ?clk1.0 = clk1 and k = 0 and ?clk2.0 = clk2]
      by simp
  qed
  have 3: "arrayObjects st rawRef = Some rawList \<and> (\<forall>a. existingRef = Some a \<longrightarrow> a < nextAddress st) \<longrightarrow>
      fst (normalizeVehiclesAt numberText clk1 rawRef existingRef st) = nextAddress st \<and>
      mapObjects (snd (normalizeVehiclesAt numberText clk1 rawRef existingRef st)) (nextAddress st) =
        Some (normalizeVehicles numberText clk1 rawList (deref st existingRef)) \<and>
      arrayObjects (snd (normalizeVehiclesAt numberText clk1 rawRef existingRef st)) = arrayObjects st \<and>
      (\<forall>a. a \<noteq> nextAddress st \<longrightarrow>
         mapObjects (snd (normalizeVehiclesAt numberText clk1 rawRef existingRef st)) a = mapObjects st a) \<and>
      deref (snd (normalizeVehiclesAt numberText clk1 rawRef existingRef st)) existingRef =
        deref st existingRef"
  proof
    assume h: "arrayObjects st rawRef = Some rawList \<and> (\<forall>a. existingRef = Some a \<longrightarrow> a < nextAddress st)"
    then have h1: "arrayObjects st rawRef = Some rawList"
      and h2: "\<forall>a. existingRef = Some a \<longrightarrow> a < nextAddress st"
      by blast+
    note s = normalizeVehiclesAt_store[OF h1 h2, where numberText = numberText and clk = clk1]
    from s(1) s(5) s(2) s(3) s(4)
    show "fst (normalizeVehiclesAt numberText clk1 rawRef existingRef st) = nextAddress st \<and>
      mapObjects (snd (normalizeVehiclesAt numberText clk1 rawRef existingRef st)) (nextAddress st) =
        Some (normalizeVehicles numberText clk1 rawList (deref st existingRef)) \<and>
      arrayObjects (snd (normalizeVehiclesAt numberText clk1 rawRef existingRef st)) = arrayObjects st \<and>
      (\<forall>a. a \<noteq> nextAddress st \<longrightarrow>
         mapObjects (snd (normalizeVehiclesAt numberText clk1 rawRef existingRef st)) a = mapObjects st a) \<and>
      deref (snd (normalizeVehiclesAt numberText clk1 rawRef existingRef st)) existingRef =
        deref st existingRef"
      by blast
  qed
  from 1 2 3 show ?thesis by blast
qed

theorem normalize_deterministic_up_to_clock_witness:
  "normalizeVehicles numberToString (\<lambda>k. 1000) [rawSample] (Some previousSample) =
     normalizeVehicles numberToString (\<lambda>k. if k = 0 then 1000 else 5) [rawSample] (Some previousSample) \<and>
   fst (normalizeVehiclesAt numberToString (\<lambda>k. 1000) 1 (Some 0) storeSample) = 2 \<and>
   arrayObjects (snd (normalizeVehiclesAt numberToString (\<lambda>k. 1000) 1 (Some 0) storeSample)) 1 =
     Some [rawSample] \<and>
   mapObjects (snd (normalizeVehiclesAt numberToString (\<lambda>k. 1000) 1 (Some 0) storeSample)) 0 =
     Some previousSample \<and>
   mapObjects (snd (normalizeVehiclesAt numberToString (\<lambda>k. 1000) 1 (Some 0) storeSample)) 2 =
     Some (normalizeVehicles numberToString (\<lambda>k. 1000) [rawSample] (Some previousSample))"
proof -
  have h: "\<forall>j < length [rawSample]. (\<lambda>k. 1000) j = (\<lambda>k. if k = 0 then 1000 else (5::int)) j"
    by simp
  have g: "arrayObjects storeSample 1 = Some [rawSample] \<and>
           (\<forall>a. Some 0 = Some a \<longrightarrow> a < nextAddress storeSample)"
    by (simp add: storeSample_def)
  have n: "nextAddress storeSample = 2" and d: "deref storeSample (Some 0) = Some previousSample"
    and a: "arrayObjects storeSample 1 = Some [rawSample]"
    and m: "mapObjects storeSample 0 = Some previousSample"
    by (simp_all add: storeSample_def deref_def)
  note t = normalize_deterministic_up_to_clock[where numberText = numberToString
      and ?clk1.0 = "\<lambda>k. 1000"
      and ?clk2.0 = "\<lambda>k. if k = 0 then 1000 else 5" and rawList = "[rawSample]"
      and existingMap = "Some previousSample" and st = storeSample and rawRef = 1
      and existingRef = "Some 0"]
  from t[THEN conjunct2, THEN conjunct1, THEN mp, OF h]
  have 1: "normalizeVehicles numberToString (\<lambda>k. 1000) [rawSample] (Some previousSample) =
     normalizeVehicles numberToString (\<lambda>k. if k = 0 then 1000 else 5) [rawSample] (Some previousSample)" .
  note u = t[THEN conjunct2, THEN conjunct2, THEN mp, OF g]
  from u have 2: "fst (normalizeVehiclesAt numberToString (\<lambda>k. 1000) 1 (Some 0) storeSample) = 2"
    by (simp only: n)
  from u have 3: "mapObjects (snd (normalizeVehiclesAt numberToString (\<lambda>k. 1000) 1 (Some 0) storeSample)) 2 =
     Some (normalizeVehicles numberToString (\<lambda>k. 1000) [rawSample] (Some previousSample))"
    by (simp only: n d)
  from u have "arrayObjects (snd (normalizeVehiclesAt numberToString (\<lambda>k. 1000) 1 (Some 0) storeSample)) =
      arrayObjects storeSample"
    by blast
  with a have 4: "arrayObjects (snd (normalizeVehiclesAt numberToString (\<lambda>k. 1000) 1 (Some 0) storeSample)) 1 =
     Some [rawSample]"
    by simp
  from u have "\<forall>a. a \<noteq> nextAddress storeSample \<longrightarrow>
      mapObjects (snd (normalizeVehiclesAt numberToString (\<lambda>k. 1000) 1 (Some 0) storeSample)) a =
      mapObjects storeSample a"
    by blast
  then have "mapObjects (snd (normalizeVehiclesAt numberToString (\<lambda>k. 1000) 1 (Some 0) storeSample)) 0 =
      mapObjects storeSample 0"
    by (simp add: n)
  with m have 5: "mapObjects (snd (normalizeVehiclesAt numberToString (\<lambda>k. 1000) 1 (Some 0) storeSample)) 0 =
     Some previousSample"
    by simp
  from 1 2 3 4 5 show ?thesis by blast
qed

text \<open>
  Two evaluations on the same raw list and previous map, one second apart, differ in
  \<open>lastSeen\<close>.
\<close>

theorem normalize_clock_counterexample:
  "map_option lastSeen (normalizeVehicles numberToString (\<lambda>k. 1000) [rawSample] (Some previousSample) ''7-3'') = Some 1000 \<and>
   map_option lastSeen (normalizeVehicles numberToString (\<lambda>k. 2000) [rawSample] (Some previousSample) ''7-3'') = Some 2000"
  using normalizeVehicles_single[where numberText = numberToString and clk = "\<lambda>k. 1000"
      and raw = rawSample and ex = "Some previousSample"]
    normalizeVehicles_single[where numberText = numberToString and clk = "\<lambda>k. 2000"
      and raw = rawSample and ex = "Some previousSample"]
  by (simp add: makeId_rawSample lastSeen_normalizeVehicle)

section \<open>Properties of the poll scheduler\<close>

lemma fetchVehicles_fail:
  "fetchRawList outcome = Inl err \<Longrightarrow>
     vehicles (fetchVehicles numberText clk manual outcome st) = vehicles st \<and>
     vehiclesRef (fetchVehicles numberText clk manual outcome st) = vehiclesRef st \<and>
     error (fetchVehicles numberText clk manual outcome st) = Some (errorMessage err) \<and>
     backoffRef (fetchVehicles numberText clk manual outcome st) = min (backoffRef st * 2) 12"
  by (simp add: fetchVehicles_def Let_def)

lemma fetchVehicles_success:
  "fetchRawList outcome = Inr rawList \<Longrightarrow>
     backoffRef (fetchVehicles numberText clk manual outcome st) = 1 \<and>
     error (fetchVehicles numberText clk manual outcome st) = None \<and>
     vehicles (fetchVehicles numberText clk manual outcome st) = normalizeVehicles numberText clk rawList (Some (vehiclesRef st))"
  by (simp add: fetchVehicles_def Let_def)

lemma fetchFails_iff: "fetchFails outcome \<longleftrightarrow> (\<exists>err. fetchRawList outcome = Inl err)"
  by (simp add: fetchFails_def split: sum.split)

lemma backoff_step: "min (min (2 ^ k) 12 * 2) (12::nat) = min (2 ^ Suc k) 12"
  by (cases "(2::nat) ^ k \<le> 12") auto

lemma runFetches_backoff:
  "backoffRef st = min (2 ^ k) 12 \<Longrightarrow> \<forall>ev \<in> set evs. fetchFails (snd (snd ev)) \<Longrightarrow>
     backoffRef (runFetches numberText st evs) = min (2 ^ (k + length evs)) 12"
proof (induction evs arbitrary: st k)
  case Nil
  then show ?case by simp
next
  case (Cons ev evs)
  obtain clk manual outcome where ev: "ev = (clk, manual, outcome)"
    by (cases ev) auto
  with Cons.prems obtain err where "fetchRawList outcome = Inl err"
    by (auto simp: fetchFails_iff)
  then have "backoffRef (fetchVehicles numberText clk manual outcome st) = min (backoffRef st * 2) 12"
    by (simp add: fetchVehicles_fail)
  with Cons.prems(1) have "backoffRef (fetchVehicles numberText clk manual outcome st) = min (2 ^ Suc k) 12"
    by (simp only: backoff_step)
  from Cons.IH[OF this] Cons.prems(2) show ?case
    by (simp add: ev)
qed

lemma runScheduler_settles:
  "runScheduler numberText pollInterval s (settles evs) =
     s\<lparr> pollState := runFetches numberText (pollState s) evs \<rparr>"
proof (induction evs arbitrary: s)
  case Nil
  then show ?case by (simp add: settles_def)
next
  case (Cons ev evs)
  obtain clk manual outcome where ev: "ev = (clk, manual, outcome)"
    by (cases ev) auto
  have "runScheduler numberText pollInterval s (settles (ev # evs)) =
        runScheduler numberText pollInterval
          (s\<lparr> pollState := fetchVehicles numberText clk manual outcome (pollState s) \<rparr>) (settles evs)"
    by (simp add: settles_def ev)
  also have "\<dots> = s\<lparr> pollState := runFetches numberText (pollState s) (ev # evs) \<rparr>"
    by (simp add: Cons.IH ev)
  finally show ?case .
qed

lemma failureRun_fails: "\<forall>ev \<in> set failureRun. fetchFails (snd (snd ev))"
  by (simp add: failureRun_def fetchFails_def statusOk_def)

lemma feedSuccess_succeeds: "\<not> fetchFails feedSuccess"
  by (simp add: feedSuccess_def fetchFails_def statusOk_def)

text \<open>
  Claim C2, as the code has it.  From a backoff multiplier of 1, after \<open>N\<close> consecutive
  failed fetches the multiplier is \<open>min (2 ^ N) 12\<close>, and a successful fetch, then or from
  any state, sets it to 1.  The wait that a timer is armed with is the poll interval (in
  milliseconds) times the multiplier at the moment of arming: the effect arms the first
  timer at once, before the fetch it has started settles; the timer callback arms the
  next timer after the fetch it awaits has settled, with the multiplier that fetch has
  left; and a fetch that settles while a timer is pending (the fetch of the effect, a
  manual reload) changes the multiplier and leaves the pending wait as it is.  So after
  the effect and \<open>N\<close> failed fetches that settle before the timer fires, the multiplier is
  \<open>min (2 ^ N) 12\<close> and the pending wait is still the poll interval times 1.
\<close>

theorem backoff_after_failures:
  assumes "backoffRef st = 1" and "\<forall>ev \<in> set evs. fetchFails (snd (snd ev))"
  shows "backoffRef (runFetches numberText st evs) = min (2 ^ length evs) 12 \<and>
         (\<not> fetchFails outcome \<longrightarrow>
            backoffRef (fetchVehicles numberText clk manual outcome (runFetches numberText st evs)) = 1 \<and>
            backoffRef (fetchVehicles numberText clk manual outcome st') = 1) \<and>
         pollState (mountEffect pollInterval st') = st' \<and>
         armedWait (mountEffect pollInterval st') = Some (pollInterval * 1000 * backoffRef st') \<and>
         pollState (schedulerStep numberText pollInterval s (TimerFires clk outcome)) =
           fetchVehicles numberText clk False outcome (pollState s) \<and>
         armedWait (schedulerStep numberText pollInterval s (TimerFires clk outcome)) =
           Some (pollInterval * 1000 *
                 backoffRef (pollState (schedulerStep numberText pollInterval s (TimerFires clk outcome)))) \<and>
         pollState (schedulerStep numberText pollInterval s (Settles clk manual outcome)) =
           fetchVehicles numberText clk manual outcome (pollState s) \<and>
         armedWait (schedulerStep numberText pollInterval s (Settles clk manual outcome)) = armedWait s \<and>
         pollState (runScheduler numberText pollInterval (mountEffect pollInterval st) (settles evs)) =
           runFetches numberText st evs \<and>
         armedWait (runScheduler numberText pollInterval (mountEffect pollInterval st) (settles evs)) =
           Some (pollInterval * 1000) \<and>
         armedWait (runScheduler numberText pollInterval (mountEffect pollInterval st)
                      (settles evs @ [TimerFires clk outcome])) =
           Some (if fetchFails outcome then pollInterval * 1000 * min (2 ^ Suc (length evs)) 12
                 else pollInterval * 1000)"
proof -
  from assms have b: "backoffRef (runFetches numberText st evs) = min (2 ^ length evs) 12"
    using runFetches_backoff[where st = st and k = 0 and evs = evs] by simp
  have s: "\<not> fetchFails outcome \<Longrightarrow> backoffRef (fetchVehicles numberText clk manual' outcome st'') = 1"
    for st'' manual'
    by (cases "fetchRawList outcome") (auto simp: fetchFails_iff fetchVehicles_success)
  have f: "fetchFails outcome \<Longrightarrow>
      backoffRef (fetchVehicles numberText clk False outcome (runFetches numberText st evs)) = min (2 ^ Suc (length evs)) 12"
    using b by (auto simp: fetchFails_iff fetchVehicles_fail backoff_step)
  have c2: "\<not> fetchFails outcome \<longrightarrow>
            backoffRef (fetchVehicles numberText clk manual outcome (runFetches numberText st evs)) = 1 \<and>
            backoffRef (fetchVehicles numberText clk manual outcome st') = 1"
    using s by simp
  have c3: "pollState (mountEffect pollInterval st') = st'"
    by (simp add: mountEffect_def)
  have c4: "armedWait (mountEffect pollInterval st') = Some (pollInterval * 1000 * backoffRef st')"
    by (simp add: mountEffect_def schedule_def)
  have c5: "pollState (schedulerStep numberText pollInterval s (TimerFires clk outcome)) =
           fetchVehicles numberText clk False outcome (pollState s)"
    by (simp add: timerFires_def Let_def)
  have c6: "armedWait (schedulerStep numberText pollInterval s (TimerFires clk outcome)) =
           Some (pollInterval * 1000 *
                 backoffRef (pollState (schedulerStep numberText pollInterval s (TimerFires clk outcome))))"
    by (simp add: timerFires_def schedule_def Let_def)
  have c7: "pollState (schedulerStep numberText pollInterval s (Settles clk manual outcome)) =
           fetchVehicles numberText clk manual outcome (pollState s)"
    by simp
  have c8: "armedWait (schedulerStep numberText pollInterval s (Settles clk manual outcome)) = armedWait s"
    by simp
  have c9: "pollState (runScheduler numberText pollInterval (mountEffect pollInterval st) (settles evs)) =
           runFetches numberText st evs"
    by (simp add: runScheduler_settles mountEffect_def)
  have c10: "armedWait (runScheduler numberText pollInterval (mountEffect pollInterval st) (settles evs)) =
           Some (pollInterval * 1000)"
    using assms(1) by (simp add: runScheduler_settles mountEffect_def schedule_def)
  have app: "runScheduler numberText pollInterval s0 (xs @ [ev]) =
             schedulerStep numberText pollInterval (runScheduler numberText pollInterval s0 xs) ev"
    for s0 xs ev
    by (induction xs arbitrary: s0) simp_all
  have c11: "armedWait (runScheduler numberText pollInterval (mountEffect pollInterval st)
                      (settles evs @ [TimerFires clk outcome])) =
           Some (if fetchFails outcome then pollInterval * 1000 * min (2 ^ Suc (length evs)) 12
                 else pollInterval * 1000)"
    using f s[where manual' = False and st'' = "runFetches numberText st evs"]
    by (simp add: app runScheduler_settles mountEffect_def timerFires_def schedule_def Let_def)
  from b c2 c3 c4 c5 c6 c7 c8 c9 c10 c11 show ?thesis by blast
qed

theorem backoff_after_failures_witness:
  "backoffRef (runFetches numberToString initialPollState failureRun) = 12 \<and>
   backoffRef (fetchVehicles numberToString feedClock False feedSuccess
                 (runFetches numberToString initialPollState failureRun)) = 1 \<and>
   armedWait (runScheduler numberToString 5 (mountEffect 5 initialPollState) (settles failureRun)) =
     Some 5000 \<and>
   armedWait (runScheduler numberToString 5 (mountEffect 5 initialPollState)
                (settles failureRun @ [TimerFires feedClock feedSuccess])) = Some 5000"
proof -
  have init: "backoffRef initialPollState = 1"
    by (simp add: initialPollState_def)
  have len: "length failureRun = 5"
    by (simp add: failureRun_def)
  note w = backoff_after_failures[OF init failureRun_fails, where numberText = numberToString
      and outcome = feedSuccess and clk = feedClock and manual = False and pollInterval = 5
      and st' = initialPollState and s = "mountEffect 5 initialPollState"]
  from w have a: "backoffRef (runFetches numberToString initialPollState failureRun) = 12"
    by (simp add: len)
  from w[THEN conjunct2, THEN conjunct1] have b:
    "backoffRef (fetchVehicles numberToString feedClock False feedSuccess
                   (runFetches numberToString initialPollState failureRun)) = 1"
    by (simp add: feedSuccess_succeeds)
  from w have c:
    "armedWait (runScheduler numberToString 5 (mountEffect 5 initialPollState) (settles failureRun)) =
       Some (5 * 1000)"
    by blast
  from w have d:
    "armedWait (runScheduler numberToString 5 (mountEffect 5 initialPollState)
                (settles failureRun @ [TimerFires feedClock feedSuccess])) =
     Some (if fetchFails feedSuccess then 5 * 1000 * min (2 ^ Suc (length failureRun)) 12 else 5 * 1000)"
    by blast
  from a b c d show ?thesis by (simp add: feedSuccess_succeeds)
qed

text \<open>
  The claim as worded fails for the first wait: the effect arms the timer with 5000 ms
  for a poll interval of 5 s; the fetch of the effect then fails and the multiplier is 2,
  while the pending wait stays 5000 ms and not 10000 ms.
\<close>

theorem wait_before_mount_fetch_counterexample:
  "backoffRef (pollState (schedulerStep numberToString 5 (mountEffect 5 initialPollState)
      (Settles feedClock False (FetchRejects (Error ''Failed to fetch''))))) = 2 \<and>
   armedWait (schedulerStep numberToString 5 (mountEffect 5 initialPollState)
      (Settles feedClock False (FetchRejects (Error ''Failed to fetch'')))) = Some 5000 \<and>
   schedule 5 (pollState (schedulerStep numberToString 5 (mountEffect 5 initialPollState)
      (Settles feedClock False (FetchRejects (Error ''Failed to fetch''))))) = 10000"
  by (simp add: mountEffect_def schedule_def fetchVehicles_fail initialPollState_def)

text \<open>
  Claim C6.  A fetch whose request rejects and a fetch answered with a status outside
  200..299 fail; and after a failed fetch the canonical map, in the state and in the
  reference the next normalization reads, is the map from before the fetch, and the error
  state holds the message of what was thrown.
\<close>

theorem failed_fetch_keeps_map:
  "fetchFails (FetchRejects t) \<and>
   (\<not> statusOk status \<longrightarrow> fetchFails (Response status body)) \<and>
   (fetchFails outcome \<longrightarrow>
      vehicles (fetchVehicles numberText clk manual outcome st) = vehicles st \<and>
      vehiclesRef (fetchVehicles numberText clk manual outcome st) = vehiclesRef st \<and>
      (\<exists>err. fetchRawList outcome = Inl err \<and>
             error (fetchVehicles numberText clk manual outcome st) = Some (errorMessage err))) \<and>
   error (fetchVehicles numberText clk manual (FetchRejects t) st) = Some (errorMessage t) \<and>
   (\<not> statusOk status \<longrightarrow>
      error (fetchVehicles numberText clk manual (Response status body) st) = Some (''HTTP '' @ natToString status))"
proof (intro conjI impI)
  show "fetchFails (FetchRejects t)"
    by (simp add: fetchFails_def)
  show "fetchFails (Response status body)" if "\<not> statusOk status"
    using that by (simp add: fetchFails_def)
  show "vehicles (fetchVehicles numberText clk manual outcome st) = vehicles st" if "fetchFails outcome"
    using that by (auto simp: fetchFails_iff fetchVehicles_fail)
  show "vehiclesRef (fetchVehicles numberText clk manual outcome st) = vehiclesRef st" if "fetchFails outcome"
    using that by (auto simp: fetchFails_iff fetchVehicles_fail)
  show "\<exists>err. fetchRawList outcome = Inl err \<and>
          error (fetchVehicles numberText clk manual outcome st) = Some (errorMessage err)" if "fetchFails outcome"
    using that by (auto simp: fetchFails_iff fetchVehicles_fail)
  show "error (fetchVehicles numberText clk manual (FetchRejects t) st) = Some (errorMessage t)"
    by (simp add: fetchVehicles_fail)
  show "error (fetchVehicles numberText clk manual (Response status body) st) = Some (''HTTP '' @ natToString status)"
    if "\<not> statusOk status"
    using that fetchVehicles_fail[where outcome = "Response status body"
        and err = "Error (''HTTP '' @ natToString status)"]
    by simp
qed

lemma natToString_500: "natToString 500 = ''500''"
  by code_simp

lemma loadedState_vehicles: "vehicles loadedState ''7-3'' = Some (normalizeVehicle numberToString (feedClock 0) rawSample (Some Map.empty))"
  using normalizeVehicles_single[where numberText = numberToString and clk = feedClock
      and raw = rawSample and ex = "Some Map.empty"]
  by (simp add: loadedState_def feedSuccess_def fetchVehicles_def statusOk_def initialPollState_def
      makeId_rawSample Let_def)

theorem failed_fetch_keeps_map_witness:
  "vehicles (fetchVehicles numberToString feedClock False (Response 500 (BodyJson (Wrapped []))) loadedState) ''7-3'' =
     Some (normalizeVehicle numberToString (feedClock 0) rawSample (Some Map.empty)) \<and>
   error (fetchVehicles numberToString feedClock False (Response 500 (BodyJson (Wrapped []))) loadedState) = Some ''HTTP 500'' \<and>
   error loadedState = None"
proof -
  have bad: "\<not> statusOk 500"
    by (simp add: statusOk_def)
  have e: "error loadedState = None"
    by (simp add: loadedState_def feedSuccess_def fetchVehicles_def statusOk_def Let_def)
  from failed_fetch_keeps_map[where numberText = numberToString and status = 500
      and body = "BodyJson (Wrapped [])"
      and outcome = "Response 500 (BodyJson (Wrapped []))" and clk = feedClock and manual = False
      and st = loadedState and t = NonError]
  show ?thesis
    using bad e by (simp add: loadedState_vehicles natToString_500)
qed

section \<open>Properties of the heading estimator\<close>

subsection \<open>Keys of the heading tracker\<close>

lemma dom_syncVehicle:
  "dom (headingTracker (syncVehicle env v st)) = insert (vehicleID v) (dom (headingTracker st))"
  by (simp add: syncVehicle_def Let_def split: option.split)

lemma dom_syncAll:
  "dom (headingTracker (syncAll env vs st)) = dom (headingTracker st) \<union> set (map vehicleID vs)"
  by (induction vs arbitrary: st) (auto simp: dom_syncVehicle)

lemma dom_updateVehicles:
  "dom (headingTracker (updateVehicles env vs st)) = set (map vehicleID vs)"
  by (auto simp: updateVehicles_def Let_def dom_syncAll)

lemma dom_runUpdates:
  "updates \<noteq> [] \<Longrightarrow>
     dom (headingTracker (runUpdates st updates)) = set (map vehicleID (snd (last updates)))"
proof (induction updates arbitrary: st)
  case Nil
  then show ?case by simp
next
  case (Cons u us)
  obtain env vs where u: "u = (env, vs)" by (cases u) auto
  show ?case
  proof (cases "us = []")
    case True
    then show ?thesis by (simp add: u dom_updateVehicles)
  next
    case False
    with Cons.IH show ?thesis by (simp add: u)
  qed
qed

text \<open>
  Claim C1.  After any call of \<open>updateVehicles\<close>, from any state of the layer and
  whatever the map host answers, the keys of the heading tracker are exactly the physical
  vehicle ids (\<open>vehicleID\<close>) of the vehicle list passed to that call; so after any
  non-empty sequence of calls they are the physical ids of the list passed last.
\<close>

theorem heading_keys_are_physical_ids:
  "dom (headingTracker (updateVehicles env vehicleList st)) = set (map vehicleID vehicleList) \<and>
   (updates \<noteq> [] \<longrightarrow>
      dom (headingTracker (runUpdates st updates)) = set (map vehicleID (snd (last updates))))"
  using dom_updateVehicles dom_runUpdates by blast

lemma vehicleID_samples:
  "vehicleID vehicleAtStop3 = Val 7" "vehicleID vehicleAtStop4 = Val 7"
  by (simp_all add: vehicleAtStop3_def vehicleAtStop4_def normalizeVehicle_def rawSample_def Let_def)

theorem heading_keys_are_physical_ids_witness:
  "dom (headingTracker (updateVehicles hostSample [vehicleAtStop3, vehicleAtStop4] initialLayerState)) =
     {Val 7} \<and>
   dom (headingTracker (runUpdates initialLayerState
          [(hostSample, [vehicleAtStop3]), (hostSample, [vehicleAtStop4])])) = {Val 7}"
proof -
  have ne: "[(hostSample, [vehicleAtStop3]), (hostSample, [vehicleAtStop4])] \<noteq> []"
    by simp
  note w = heading_keys_are_physical_ids[where env = hostSample
      and vehicleList = "[vehicleAtStop3, vehicleAtStop4]" and st = initialLayerState
      and updates = "[(hostSample, [vehicleAtStop3]), (hostSample, [vehicleAtStop4])]"]
  from w[THEN conjunct1] w[THEN conjunct2, THEN mp, OF ne] show ?thesis
    by (simp add: vehicleID_samples)
qed

subsection \<open>Angle differences\<close>

lemma wrapDown_le: "wrapDown d \<le> pi"
proof (induction d rule: wrapDown.induct)
  case (1 d)
  show ?case
  proof (cases "d > pi")
    case True
    with 1 show ?thesis by (subst wrapDown.simps) simp
  next
    case False
    then show ?thesis by (subst wrapDown.simps) simp
  qed
qed

lemma wrapDown_ge: "- pi \<le> d \<Longrightarrow> - pi \<le> wrapDown d"
proof (induction d rule: wrapDown.induct)
  case (1 d)
  show ?case
  proof (cases "d > pi")
    case True
    then have "- pi \<le> d - 2 * pi" by simp
    with 1 True show ?thesis by (subst wrapDown.simps) simp
  next
    case False
    with 1 show ?thesis by (subst wrapDown.simps) simp
  qed
qed

lemma wrapUp_ge: "- pi \<le> wrapUp d"
proof (induction d rule: wrapUp.induct)
  case (1 d)
  show ?case
  proof (cases "d < - pi")
    case True
    with 1 show ?thesis by (subst wrapUp.simps) simp
  next
    case False
    then show ?thesis by (subst wrapUp.simps) simp
  qed
qed

lemma wrapUp_le: "d \<le> pi \<Longrightarrow> wrapUp d \<le> pi"
proof (induction d rule: wrapUp.induct)
  case (1 d)
  show ?case
  proof (cases "d < - pi")
    case True
    then have "d + 2 * pi \<le> pi" by simp
    with 1 True show ?thesis by (subst wrapUp.simps) simp
  next
    case False
    with 1 show ?thesis by (subst wrapUp.simps) simp
  qed
qed

text \<open>
  Claim C9, as the code has it.  For every pair of angles the difference that
  \<open>angleDelta\<close> computes for the smoothing lies in the closed interval from \<open>- pi\<close> to
  \<open>pi\<close>, and the deviation that \<open>angleDiff\<close> computes for the road match lies between 0
  and \<open>pi\<close>, so that no angle difference exceeds \<open>pi\<close> in magnitude.
\<close>

theorem angle_difference_range:
  "- pi \<le> angleDelta target current \<and> angleDelta target current \<le> pi \<and>
   \<bar>angleDelta target current\<bar> \<le> pi \<and>
   0 \<le> angleDiff a b \<and> angleDiff a b \<le> pi"
proof -
  have 1: "- pi \<le> angleDelta target current"
    by (simp add: angleDelta_def wrapUp_ge)
  have 2: "angleDelta target current \<le> pi"
    by (simp add: angleDelta_def wrapUp_le wrapDown_le)
  from 1 2 have 3: "\<bar>angleDelta target current\<bar> \<le> pi"
    by (simp add: abs_le_iff)
  have "- pi \<le> wrapUp (wrapDown (a - b))" "wrapUp (wrapDown (a - b)) \<le> pi"
    by (simp_all add: wrapUp_ge wrapUp_le wrapDown_le)
  then have 4: "0 \<le> angleDiff a b \<and> angleDiff a b \<le> pi"
    by (simp add: angleDiff_def abs_le_iff)
  from 1 2 3 4 show ?thesis by blast
qed

lemma wrapDown_id: "d \<le> pi \<Longrightarrow> wrapDown d = d"
  by (subst wrapDown.simps) simp

lemma wrapDown_step: "pi < d \<Longrightarrow> wrapDown d = wrapDown (d - 2 * pi)"
  by (subst wrapDown.simps) simp

lemma wrapUp_id: "- pi \<le> d \<Longrightarrow> wrapUp d = d"
  by (subst wrapUp.simps) simp

lemma angleDelta_west: "angleDelta (- pi) 0 = - pi"
proof -
  have "- pi \<le> pi"
    using pi_gt_zero by linarith
  then have "wrapDown (- pi) = - pi"
    by (rule wrapDown_id)
  moreover have "wrapUp (- pi) = - pi"
    by (rule wrapUp_id) simp
  ultimately show ?thesis by (simp add: angleDelta_def)
qed

text \<open>
  The lower bound is attained: for a target of \<open>- pi\<close> (a vehicle heading due west) and a
  current angle of 0 neither loop runs and the difference is \<open>- pi\<close>.
\<close>

theorem angle_difference_counterexample:
  "\<not> (- pi < angleDelta (- pi) 0 \<and> angleDelta (- pi) 0 \<le> pi)"
  by (simp add: angleDelta_west)

lemma angleDelta_quarter: "angleDelta (3 * pi / 2) 0 = - (pi / 2)"
proof -
  have gt: "pi < 3 * pi / 2"
    using pi_gt_zero by linarith
  have eq: "3 * pi / 2 - 2 * pi = - (pi / 2)"
    by (simp add: field_simps)
  have le: "- (pi / 2) \<le> pi" and ge: "- pi \<le> - (pi / 2)"
    using pi_gt_zero by linarith+
  have "wrapDown (3 * pi / 2) = wrapDown (- (pi / 2))"
    using wrapDown_step[OF gt] by (simp only: eq)
  also have "\<dots> = - (pi / 2)"
    using le by (rule wrapDown_id)
  finally have "wrapDown (3 * pi / 2) = - (pi / 2)" .
  moreover have "wrapUp (- (pi / 2)) = - (pi / 2)"
    using ge by (rule wrapUp_id)
  ultimately show ?thesis by (simp add: angleDelta_def)
qed

theorem angle_difference_range_witness:
  "angleDelta (3 * pi / 2) 0 = - (pi / 2) \<and> - pi \<le> angleDelta (3 * pi / 2) 0 \<and>
   angleDelta (3 * pi / 2) 0 \<le> pi \<and> angleDiff (3 * pi / 2) 0 \<le> pi"
  using angle_difference_range[where target = "3 * pi / 2" and current = 0 and a = "3 * pi / 2" and b = 0]
  by (simp add: angleDelta_quarter)

section \<open>Properties of the route geometry stitcher\<close>

subsection \<open>Chunking\<close>

lemma chunkBounds_range:
  "(s, e) \<in> set (chunkBounds n i) \<Longrightarrow> i \<le> s \<and> s < e \<and> e \<le> n \<and> e - s \<le> MAX_WAYPOINTS"
proof (induction n i rule: chunkBounds.induct)
  case (1 n i)
  show ?case
  proof (cases "i < n")
    case False
    with "1.prems" show ?thesis by (subst (asm) chunkBounds.simps) simp
  next
    case True
    let ?e = "min (i + MAX_WAYPOINTS) n"
    show ?thesis
    proof (cases "?e \<ge> n")
      case last: True
      with True "1.prems" have "(s, e) = (i, ?e)"
        by (subst (asm) chunkBounds.simps) (simp add: Let_def)
      with True show ?thesis by (auto simp: MAX_WAYPOINTS_def)
    next
      case more: False
      from True more "1.prems" have "(s, e) = (i, ?e) \<or> (s, e) \<in> set (chunkBounds n (?e - CHUNK_OVERLAP))"
        by (subst (asm) chunkBounds.simps) (simp add: Let_def)
      then show ?thesis
      proof
        assume "(s, e) = (i, ?e)"
        with True show ?thesis by (auto simp: MAX_WAYPOINTS_def)
      next
        assume "(s, e) \<in> set (chunkBounds n (?e - CHUNK_OVERLAP))"
        from "1.IH"[OF True refl more this] more show ?thesis
          by (auto simp: MAX_WAYPOINTS_def CHUNK_OVERLAP_def)
      qed
    qed
  qed
qed

lemma chunkBounds_ends:
  "i < n \<Longrightarrow> chunkBounds n i \<noteq> [] \<and> fst (hd (chunkBounds n i)) = i \<and> snd (last (chunkBounds n i)) = n"
proof (induction n i rule: chunkBounds.induct)
  case (1 n i)
  let ?e = "min (i + MAX_WAYPOINTS) n"
  show ?case
  proof (cases "?e \<ge> n")
    case True
    with "1.prems" have "chunkBounds n i = [(i, ?e)]"
      by (subst chunkBounds.simps) (simp add: Let_def)
    with True show ?thesis by simp
  next
    case False
    with "1.prems" have eq: "chunkBounds n i = (i, ?e) # chunkBounds n (?e - CHUNK_OVERLAP)"
      by (subst chunkBounds.simps) (simp add: Let_def)
    from False have "?e - CHUNK_OVERLAP < n" by simp
    from "1.IH"[OF "1.prems" refl False this] eq show ?thesis by simp
  qed
qed

lemma chunkBounds_overlap:
  "Suc k < length (chunkBounds n i) \<Longrightarrow>
     fst (chunkBounds n i ! Suc k) + CHUNK_OVERLAP = snd (chunkBounds n i ! k)"
proof (induction n i arbitrary: k rule: chunkBounds.induct)
  case (1 n i)
  let ?e = "min (i + MAX_WAYPOINTS) n"
  have lt: "i < n"
  proof (rule ccontr)
    assume "\<not> i < n"
    then have "chunkBounds n i = []" by (subst chunkBounds.simps) simp
    with "1.prems" show False by simp
  qed
  have more: "\<not> ?e \<ge> n"
  proof
    assume "?e \<ge> n"
    with lt have "chunkBounds n i = [(i, ?e)]"
      by (subst chunkBounds.simps) (simp add: Let_def)
    with "1.prems" show False by simp
  qed
  with lt have eq: "chunkBounds n i = (i, ?e) # chunkBounds n (?e - CHUNK_OVERLAP)"
    by (subst chunkBounds.simps) (simp add: Let_def)
  from more have e: "?e = i + MAX_WAYPOINTS" and next_lt: "?e - CHUNK_OVERLAP < n"
    by auto
  show ?case
  proof (cases k)
    case 0
    from chunkBounds_ends[OF next_lt]
    have ne: "chunkBounds n (?e - CHUNK_OVERLAP) \<noteq> []"
      and h: "fst (hd (chunkBounds n (?e - CHUNK_OVERLAP))) = ?e - CHUNK_OVERLAP"
      by simp_all
    from h have "fst (chunkBounds n (?e - CHUNK_OVERLAP) ! 0) = ?e - CHUNK_OVERLAP"
      using ne by (simp add: hd_conv_nth)
    with 0 eq e show ?thesis
      by (simp add: MAX_WAYPOINTS_def CHUNK_OVERLAP_def)
  next
    case (Suc k')
    with "1.prems" eq have "Suc k' < length (chunkBounds n (?e - CHUNK_OVERLAP))" by simp
    from "1.IH"[OF lt refl more this] Suc eq show ?thesis by simp
  qed
qed

lemma chunkBounds_150: "chunkBounds 150 0 = [(0, 80), (78, 150)]"
  by (simp add: chunkBounds.simps MAX_WAYPOINTS_def CHUNK_OVERLAP_def Let_def)

lemma length_slice: "e \<le> length xs \<Longrightarrow> length (slice i e xs) = e - i"
  by (simp add: slice_def)

text \<open>
  Claim C7.  For a waypoint list longer than the per-request limit: every chunk has at
  most \<open>MAX_WAYPOINTS\<close> waypoints; the chunks are the slices of the list at the bounds
  \<open>(start, end)\<close> that the loop runs through, where each start after the first is
  exactly 2 before the previous end, the first start is 0 and the last end is the length
  of the list, so that the last chunk ends with the final waypoint; and 150 waypoints
  give exactly the 2 chunks \<open>[0, 80)\<close> and \<open>[78, 150)\<close>.
\<close>

theorem chunking_properties:
  assumes "MAX_WAYPOINTS < length waypoints"
  shows "(\<forall>c \<in> set (chunksOf waypoints). length c \<le> MAX_WAYPOINTS) \<and>
         chunksOf waypoints =
           map (\<lambda>(i, e). slice i e waypoints) (chunkBounds (length waypoints) 0) \<and>
         (\<forall>k. Suc k < length (chunkBounds (length waypoints) 0) \<longrightarrow>
            fst (chunkBounds (length waypoints) 0 ! Suc k) + 2 =
            snd (chunkBounds (length waypoints) 0 ! k)) \<and>
         fst (hd (chunkBounds (length waypoints) 0)) = 0 \<and>
         snd (last (chunkBounds (length waypoints) 0)) = length waypoints \<and>
         last (last (chunksOf waypoints)) = last waypoints \<and>
         (length waypoints = 150 \<longrightarrow>
            chunkBounds (length waypoints) 0 = [(0, 80), (78, 150)] \<and>
            chunksOf waypoints = [take 80 waypoints, drop 78 waypoints])"
proof -
  let ?n = "length waypoints" and ?bs = "chunkBounds (length waypoints) 0"
  from assms have pos: "0 < ?n" by arith
  have a: "\<forall>c \<in> set (chunksOf waypoints). length c \<le> MAX_WAYPOINTS"
  proof
    fix c assume "c \<in> set (chunksOf waypoints)"
    then obtain s e where se: "(s, e) \<in> set ?bs" and c: "c = slice s e waypoints"
      by (auto simp: chunksOf_def)
    from chunkBounds_range[OF se] c show "length c \<le> MAX_WAYPOINTS"
      by (simp add: length_slice)
  qed
  have b: "\<forall>k. Suc k < length ?bs \<longrightarrow> fst (?bs ! Suc k) + 2 = snd (?bs ! k)"
    using chunkBounds_overlap[of _ ?n 0] by (simp add: CHUNK_OVERLAP_def)
  note ends = chunkBounds_ends[OF pos]
  have d: "last (last (chunksOf waypoints)) = last waypoints"
  proof -
    obtain s e where l: "last ?bs = (s, e)" by (cases "last ?bs") auto
    from ends have "last ?bs \<in> set ?bs" by simp
    with l have "(s, e) \<in> set ?bs" by simp
    from chunkBounds_range[OF this] ends l have s: "s < ?n" and e: "e = ?n" by auto
    from ends l have "last (chunksOf waypoints) = slice s e waypoints"
      by (simp add: chunksOf_def last_map)
    with s e pos show ?thesis by (simp add: slice_def)
  qed
  have f: "?n = 150 \<longrightarrow> ?bs = [(0, 80), (78, 150)] \<and>
            chunksOf waypoints = [take 80 waypoints, drop 78 waypoints]"
    by (auto simp: chunksOf_def chunkBounds_150 slice_def)
  have c0: "chunksOf waypoints = map (\<lambda>(i, e). slice i e waypoints) ?bs"
    by (simp add: chunksOf_def)
  from a c0 b ends d f show ?thesis
    by blast
qed

lemma length_waypoints150: "length waypoints150 = 150"
  by (simp add: waypoints150_def)

theorem chunking_properties_witness:
  "length (chunksOf waypoints150) = 2 \<and>
   chunkBounds (length waypoints150) 0 = [(0, 80), (78, 150)] \<and>
   chunksOf waypoints150 = [take 80 waypoints150, drop 78 waypoints150]"
proof -
  have h: "MAX_WAYPOINTS < length waypoints150"
    by (simp add: length_waypoints150 MAX_WAYPOINTS_def)
  from chunking_properties[OF h]
  have "length waypoints150 = 150 \<longrightarrow>
          chunkBounds (length waypoints150) 0 = [(0, 80), (78, 150)] \<and>
          chunksOf waypoints150 = [take 80 waypoints150, drop 78 waypoints150]"
    by blast
  with length_waypoints150
  have c: "chunkBounds (length waypoints150) 0 = [(0, 80), (78, 150)] \<and>
          chunksOf waypoints150 = [take 80 waypoints150, drop 78 waypoints150]"
    by blast
  then have "length (chunksOf waypoints150) = 2"
    by simp
  with c show ?thesis by blast
qed

subsection \<open>Fallback to straight lines\<close>











section \<open>Properties of the trip-stop parser\<close>












end
